theory Spec2Isabelle
  imports Complex_Main
begin

section \<open>JavaScript values used by the scheduler\<close>

text \<open>
  The scheduler computes with JavaScript numbers. Counts, indices and retry parameters
  are integers in every run (they come from \<^verbatim>\<open>parseInt\<close>, from array lengths and from
  loop counters) and are modelled as \<^typ>\<open>int\<close>. Durations and time offsets are
  modelled as \<^typ>\<open>real\<close>: rounding of IEEE doubles is not modelled.

  The remainder \<^verbatim>\<open>i % n\<close> of two integers is \<^verbatim>\<open>NaN\<close> when \<open>n\<close> is zero and otherwise
  takes the sign of the dividend.
\<close>

datatype jsint = Idx int | NaN

definition js_rem :: "int \<Rightarrow> int \<Rightarrow> jsint" where
  "js_rem i n = (if n = 0 then NaN else Idx (sgn i * (\<bar>i\<bar> mod \<bar>n\<bar>)))"

text \<open>
  Reading \<^verbatim>\<open>xs[i]\<close> where \<open>i\<close> is an integer: \<^verbatim>\<open>undefined\<close> (here \<open>None\<close>) outside the
  array, never an exception.
\<close>

definition js_at :: "'a list \<Rightarrow> int \<Rightarrow> 'a option" where
  "js_at xs i = (if 0 \<le> i \<and> i < int (length xs) then Some (xs ! nat i) else None)"

section \<open>Wallet lock manager\<close>

text \<open>
  \<^verbatim>\<open>class WalletLockManager { private locks: Map<number, boolean> }\<close>.
  The methods mutate the map; the model returns the new map.
\<close>

type_synonym WalletLockManager = "jsint \<rightharpoonup> bool"

definition tryAcquire :: "WalletLockManager \<Rightarrow> jsint \<Rightarrow> bool \<times> WalletLockManager" where
  "tryAcquire locks walletIndex =
     (if locks walletIndex = Some True then (False, locks)
      else (True, locks(walletIndex \<mapsto> True)))"

definition release :: "WalletLockManager \<Rightarrow> jsint \<Rightarrow> WalletLockManager" where
  "release locks walletIndex = locks(walletIndex \<mapsto> False)"

definition isLocked :: "WalletLockManager \<Rightarrow> jsint \<Rightarrow> bool" where
  "isLocked locks walletIndex = (locks walletIndex = Some True)"

section \<open>Durable state store\<close>

text \<open>
  \<^verbatim>\<open>PreparedToken\<close> of the types module, and \<^verbatim>\<open>BotState\<close> of the storage service. The
  entries of \<^verbatim>\<open>createdTokens\<close> are an anonymous object type in the source; two of its
  fields share their names with fields of \<^verbatim>\<open>TokenTask\<close>, so they carry the prefix
  \<open>created\<close> here.
\<close>

record PreparedToken =
  name :: string
  symbol :: string
  tokenURI :: string
  description :: string
  imageUri :: string
  twitter :: "string option"
  telegram :: "string option"
  website :: "string option"

record CreatedToken =
  tokenAddress :: string
  createdMetadata :: PreparedToken
  createdAt :: int
  createdWalletIndex :: int

record BotState =
  tokensCreated :: int
  startTime :: "int option"
  lastCreatedAt :: "int option"
  createdTokens :: "CreatedToken list"

text \<open>
  The state file on disk: absent, present with content that \<^verbatim>\<open>JSON.parse\<close> rejects, or
  present with the serialised form of a \<^verbatim>\<open>BotState\<close> (\<^verbatim>\<open>JSON.stringify\<close> followed by
  \<^verbatim>\<open>JSON.parse\<close> gives the record back).
\<close>

datatype statefile = Missing | Malformed | Json BotState

definition loadState :: "statefile \<Rightarrow> string + BotState" where
  "loadState f =
     (case f of
        Missing \<Rightarrow> Inr \<lparr>tokensCreated = 0, startTime = None, lastCreatedAt = None,
                         createdTokens = []\<rparr>
      | Malformed \<Rightarrow> Inl ''SyntaxError''
      | Json state \<Rightarrow> Inr state)"

text \<open>
  \<^verbatim>\<open>class StateLockManager { locked: boolean; queue: Array<() => void> }\<close>. A waiter in
  the queue is the \<^verbatim>\<open>resolve\<close> callback of a suspended caller; the model keeps an
  identifier of that caller. \<open>stateLock_acquire\<close> returns whether the promise is
  resolved at once (the caller holds the lock) or the caller has been queued.
  \<open>stateLock_release\<close> hands the lock to the first waiter (\<^verbatim>\<open>locked\<close> stays true) or,
  with nobody waiting, unlocks.
\<close>

record StateLockManager =
  locked :: bool
  queue :: "nat list"

definition stateLock_acquire :: "nat \<Rightarrow> StateLockManager \<Rightarrow> bool \<times> StateLockManager" where
  "stateLock_acquire caller l =
     (if \<not> locked l then (True, l\<lparr>locked := True\<rparr>)
      else (False, l\<lparr>queue := queue l @ [caller]\<rparr>))"

definition stateLock_release :: "StateLockManager \<Rightarrow> StateLockManager" where
  "stateLock_release l =
     (case queue l of
        next_waiter # rest \<Rightarrow> l\<lparr>queue := rest\<rparr>
      | [] \<Rightarrow> l\<lparr>locked := False\<rparr>)"

text \<open>
  The effects of a task that later claims observe, in the order they happen.
\<close>

datatype effect =
    CreateCalled
  | StateWritten BotState
  | OperationCalled int
  | Slept int

record World =
  stateFile :: statefile
  stateLock :: StateLockManager
  trace :: "effect list"

text \<open>
  \<^verbatim>\<open>withLock\<close>: \<^verbatim>\<open>await this.acquire(); try { return await fn(); } finally { this.release(); }\<close>.
  \<open>withLock_body\<close> is the part that runs once the lock is held; \<open>withLock\<close> runs it
  at once when the lock is free and otherwise returns \<open>None\<close> with the caller queued
  (the caller resumes with \<open>withLock_body\<close> when a release hands the lock over).
\<close>

definition withLock_body ::
  "(World \<Rightarrow> (string + 'a) \<times> World) \<Rightarrow> World \<Rightarrow> (string + 'a) \<times> World" where
  "withLock_body fn w =
     (case fn w of (r, w') \<Rightarrow> (r, w'\<lparr>stateLock := stateLock_release (stateLock w')\<rparr>))"

definition withLock ::
  "nat \<Rightarrow> (World \<Rightarrow> (string + 'a) \<times> World) \<Rightarrow> World \<Rightarrow> (string + 'a) option \<times> World" where
  "withLock caller fn w =
     (case stateLock_acquire caller (stateLock w) of
        (True, l) \<Rightarrow> (case withLock_body fn (w\<lparr>stateLock := l\<rparr>) of (r, w') \<Rightarrow> (Some r, w'))
      | (False, l) \<Rightarrow> (None, w\<lparr>stateLock := l\<rparr>))"

definition saveState_body :: "BotState \<Rightarrow> World \<Rightarrow> (string + unit) \<times> World" where
  "saveState_body state w =
     (Inr (), w\<lparr>stateFile := Json state, trace := trace w @ [StateWritten state]\<rparr>)"

definition saveState :: "nat \<Rightarrow> BotState \<Rightarrow> World \<Rightarrow> (string + unit) option \<times> World" where
  "saveState caller state w = withLock caller (saveState_body state) w"

text \<open>
  \<^verbatim>\<open>updateState(updater)\<close>. The updater mutates the freshly loaded state in place or
  throws; the model gives it the loaded state and receives the mutated state or the
  error message. The write is the last statement of the locked function.
\<close>

definition updateState_body ::
  "(BotState \<Rightarrow> string + BotState) \<Rightarrow> World \<Rightarrow> (string + unit) \<times> World" where
  "updateState_body updater w =
     (case loadState (stateFile w) of
        Inl err \<Rightarrow> (Inl err, w)
      | Inr state \<Rightarrow>
          (case updater state of
             Inl err \<Rightarrow> (Inl err, w)
           | Inr state' \<Rightarrow>
               (Inr (), w\<lparr>stateFile := Json state',
                           trace := trace w @ [StateWritten state']\<rparr>)))"

definition updateState ::
  "nat \<Rightarrow> (BotState \<Rightarrow> string + BotState) \<Rightarrow> World \<Rightarrow> (string + unit) option \<times> World" where
  "updateState caller updater w = withLock caller (updateState_body updater) w"

definition resetState :: "nat \<Rightarrow> World \<Rightarrow> (string + unit) option \<times> World" where
  "resetState caller w =
     saveState caller \<lparr>tokensCreated = 0, startTime = None, lastCreatedAt = None,
                       createdTokens = []\<rparr> w"

text \<open>
  The updater that the token creation workflow passes to \<^verbatim>\<open>updateState\<close>
  (an arrow function in the source): it counts the token, stamps the time and appends
  the record. \<open>now1\<close> and \<open>now2\<close> are the values of its two \<^verbatim>\<open>Date.now()\<close> calls.
\<close>

definition creationUpdater ::
  "string \<Rightarrow> PreparedToken \<Rightarrow> int \<Rightarrow> int \<Rightarrow> int \<Rightarrow> BotState \<Rightarrow> string + BotState" where
  "creationUpdater address md walletIdx now1 now2 state =
     Inr (state\<lparr>tokensCreated := tokensCreated state + 1,
                lastCreatedAt := Some now1,
                createdTokens := createdTokens state @
                  [\<lparr>tokenAddress = address, createdMetadata = md, createdAt = now2,
                    createdWalletIndex = walletIdx\<rparr>]\<rparr>)"

text \<open>The invariant of the progress record.\<close>

definition count_matches :: "BotState \<Rightarrow> bool" where
  "count_matches state = (int (length (createdTokens state)) = tokensCreated state)"

section \<open>Retry wrapper\<close>

text \<open>
  JavaScript's conversion of an integer to a string, as a template literal performs it.
\<close>

definition digit_char :: "nat \<Rightarrow> char" where
  "digit_char d = ''0123456789'' ! d"

function show_nat :: "nat \<Rightarrow> string" where
  "show_nat n = (if n < 10 then [digit_char n] else show_nat (n div 10) @ [digit_char (n mod 10)])"
  by pat_completeness auto
termination
  by (relation "measure id") auto

declare show_nat.simps [simp del]

definition show_int :: "int \<Rightarrow> string" where
  "show_int i = (if i < 0 then ''-'' @ show_nat (nat (- i)) else show_nat (nat i))"

text \<open>
  \<^verbatim>\<open>withRetry(fn, taskName, maxRetries, retryDelay)\<close>. The operation is external; \<open>fn k\<close>
  is the outcome of the invocation made in attempt \<open>k\<close>: its value, or the message of
  what it threw. The function returns the result together with the invocations and
  \<^verbatim>\<open>setTimeout\<close> delays it performed, in order. The loop variable \<open>attempt\<close> starts at 1.
  The last branch is the \<^verbatim>\<open>throw\<close> after the loop.
\<close>

function withRetry_loop ::
  "(int \<Rightarrow> string + 'a) \<Rightarrow> string \<Rightarrow> int \<Rightarrow> int \<Rightarrow> int \<Rightarrow> effect list
     \<Rightarrow> (string + 'a) \<times> effect list" where
  "withRetry_loop fn taskName maxRetries retryDelay attempt performed =
     (if attempt \<le> maxRetries then
        (case fn attempt of
           Inr v \<Rightarrow> (Inr v, performed @ [OperationCalled attempt])
         | Inl message \<Rightarrow>
             if attempt < maxRetries then
               withRetry_loop fn taskName maxRetries retryDelay (attempt + 1)
                 (performed @ [OperationCalled attempt, Slept (retryDelay * attempt)])
             else
               (Inl (taskName @ '' failed after '' @ show_int maxRetries @ '' attempts: ''
                       @ message),
                performed @ [OperationCalled attempt]))
      else (Inl (taskName @ '' failed after '' @ show_int maxRetries @ '' attempts''), performed))"
  by pat_completeness auto
termination
  by (relation "measure (\<lambda>(fn, taskName, maxRetries, retryDelay, attempt, performed).
        nat (maxRetries + 1 - attempt))") auto

declare withRetry_loop.simps [simp del]

definition withRetry ::
  "(int \<Rightarrow> string + 'a) \<Rightarrow> string \<Rightarrow> int \<Rightarrow> int \<Rightarrow> (string + 'a) \<times> effect list" where
  "withRetry fn taskName maxRetries retryDelay =
     withRetry_loop fn taskName maxRetries retryDelay 1 []"

fun is_call :: "effect \<Rightarrow> bool" where
  "is_call (OperationCalled k) = True"
| "is_call e = False"

section \<open>Configuration and token creation workflow\<close>

text \<open>
  The fields of \<^verbatim>\<open>BotConfig\<close> that the scheduler and the workflow read, and the fields
  of \<^verbatim>\<open>WalletInstance\<close> that are data (its clients are handles of the external chain
  library).
\<close>

datatype ExecutionMode = sequential | parallel

record BotConfig =
  numWallets :: int
  totalTokensToCreate :: int
  durationHours :: real
  executionMode :: ExecutionMode
  delayRandomness :: real
  sellPercentage :: int
  maxRetries :: int
  retryDelayMs :: int

record WalletInstance =
  address :: string
  index :: int

text \<open>Division of \<^verbatim>\<open>BigInt\<close> values truncates towards zero.\<close>

definition bigint_div :: "int \<Rightarrow> int \<Rightarrow> int" where
  "bigint_div a b = sgn a * sgn b * (\<bar>a\<bar> div \<bar>b\<bar>)"

text \<open>
  The sell step of the workflow: when the configured sell percentage is positive, the
  sale of that share of the received tokens under \<^verbatim>\<open>withRetry\<close>. \<open>sellTokens amount k\<close>
  is the outcome of the call of \<^verbatim>\<open>sellTokens\<close> with that amount in attempt \<open>k\<close>.
\<close>

definition sellStep ::
  "BotConfig \<Rightarrow> PreparedToken \<Rightarrow> int \<Rightarrow> (int \<Rightarrow> int \<Rightarrow> string + string) \<Rightarrow> World
     \<Rightarrow> (string + unit) \<times> World" where
  "sellStep cfg md tokensReceived sellTokens w =
     (if sellPercentage cfg > 0 then
        (case withRetry
                (sellTokens (bigint_div (tokensReceived * sellPercentage cfg) 100))
                (''Sell tokens for '' @ symbol md) (maxRetries cfg) (retryDelayMs cfg) of
           (Inl err, performed) \<Rightarrow> (Inl err, w\<lparr>trace := trace w @ performed\<rparr>)
         | (Inr hash, performed) \<Rightarrow> (Inr (), w\<lparr>trace := trace w @ performed\<rparr>))
      else (Inr (), w))"

text \<open>
  \<^verbatim>\<open>await updateState(updater)\<close> as a task lives it. When the state lock is free the
  update runs at once. When it is held the caller is queued, and what happens next
  depends on the other tasks: \<open>handOver\<close> gives, for the world in which the caller was
  queued, the world in which a release hands the lock to the caller (still locked, the
  other tasks' effects done), or \<open>None\<close> when no release ever reaches it. After the
  hand-over the caller runs the locked part of \<open>updateState\<close> in that world. The result
  is \<open>None\<close> only for a caller that waits forever.
\<close>

definition awaitUpdateState ::
  "nat \<Rightarrow> (BotState \<Rightarrow> string + BotState) \<Rightarrow> (World \<Rightarrow> World option) \<Rightarrow> World
     \<Rightarrow> (string + unit) option \<times> World" where
  "awaitUpdateState caller updater handOver w =
     (case updateState caller updater w of
        (Some r, w') \<Rightarrow> (Some r, w')
      | (None, queued) \<Rightarrow>
          (case handOver queued of
             None \<Rightarrow> (None, queued)
           | Some held \<Rightarrow>
               (case withLock_body (updateState_body updater) held of
                  (r, w') \<Rightarrow> (Some r, w'))))"

text \<open>
  \<^verbatim>\<open>executeTokenCreation(wallet, metadata)\<close>. \<open>parsed\<close> is the outcome of
  \<^verbatim>\<open>parseEther(config.initialBuyAmount)\<close>, the amount or the message of what it threw.
  The contract calls are external: \<open>createToken amount\<close> is the outcome of the call of
  \<^verbatim>\<open>createToken\<close> with that initial buy amount (the token address and the tokens
  received, or the message of the error). The steps are in the order of the source:
  parse the amount, create, then \<^verbatim>\<open>await updateState\<close>, then the sell step.
\<close>

definition executeTokenCreation ::
  "BotConfig \<Rightarrow> nat \<Rightarrow> WalletInstance \<Rightarrow> PreparedToken \<Rightarrow> (string + int)
     \<Rightarrow> (int \<Rightarrow> string + string \<times> int) \<Rightarrow> (int \<Rightarrow> int \<Rightarrow> string + string) \<Rightarrow> int \<Rightarrow> int
     \<Rightarrow> (World \<Rightarrow> World option) \<Rightarrow> World \<Rightarrow> (string + unit) option \<times> World" where
  "executeTokenCreation cfg caller wallet md parsed createToken sellTokens now1 now2 handOver w =
     (case parsed of
        Inl err \<Rightarrow> (Some (Inl err), w)
      | Inr initialBuyAmount \<Rightarrow>
          (case createToken initialBuyAmount of
             Inl err \<Rightarrow> (Some (Inl err), w\<lparr>trace := trace w @ [CreateCalled]\<rparr>)
           | Inr (tokenAddr, tokensReceived) \<Rightarrow>
               (case awaitUpdateState caller
                       (creationUpdater tokenAddr md (index wallet) now1 now2) handOver
                       (w\<lparr>trace := trace w @ [CreateCalled]\<rparr>) of
                  (None, w2) \<Rightarrow> (None, w2)
                | (Some (Inl err), w2) \<Rightarrow> (Some (Inl err), w2)
                | (Some (Inr u), w2) \<Rightarrow>
                    (case sellStep cfg md tokensReceived sellTokens w2 of
                       (r, w3) \<Rightarrow> (Some r, w3)))))"

fun is_write :: "effect \<Rightarrow> bool" where
  "is_write (StateWritten state) = True"
| "is_write e = False"

section \<open>Task generation\<close>

text \<open>
  \<^verbatim>\<open>Math.random()\<close> returns a number that is at least 0 and less than 1. The type
  \<open>draw\<close> holds exactly these values, and the generator receives the sequence of the
  values that its calls of \<^verbatim>\<open>Math.random()\<close> return: \<open>rand k\<close> is the value of call
  number \<open>k\<close>, counted from 0. Each loop carries the number of calls made so far.
\<close>

typedef draw = "{r::real. 0 \<le> r \<and> r < 1}"
  morphisms draw_value Draw
  by (rule exI [of _ 0]) simp

record TokenTask =
  tokenIndex :: int
  walletIndex :: jsint
  metadata :: "PreparedToken option"
  delayMs :: real
  scheduledTime :: real

definition getRandomDelay :: "draw \<Rightarrow> real \<Rightarrow> real \<Rightarrow> real" where
  "getRandomDelay r averageMs randomness =
     (let minMs = averageMs * (1 - randomness);
          maxMs = averageMs * (1 + randomness)
      in of_int \<lfloor>draw_value r * (maxMs - minMs) + minMs\<rfloor>)"

text \<open>
  Parallel mode, first loop: one random time \<^verbatim>\<open>Math.random() * durationMs\<close> for each
  token.
\<close>

function randomTimes_loop ::
  "(nat \<Rightarrow> draw) \<Rightarrow> real \<Rightarrow> int \<Rightarrow> int \<Rightarrow> nat \<Rightarrow> real list \<Rightarrow> real list \<times> nat" where
  "randomTimes_loop rand durationMs totalTokens i k randomTimes =
     (if i < totalTokens then
        randomTimes_loop rand durationMs totalTokens (i + 1) (k + 1)
          (randomTimes @ [draw_value (rand k) * durationMs])
      else (randomTimes, k))"
  by pat_completeness auto
termination
  by (relation "measure (\<lambda>(rand, durationMs, totalTokens, i, k, randomTimes).
        nat (totalTokens - i))") auto

declare randomTimes_loop.simps [simp del]

text \<open>
  Parallel mode, second loop. \<open>randomTimes\<close> is the sorted array; it has one entry for
  each \<open>i\<close> below \<open>totalTokens\<close>, so \<^verbatim>\<open>randomTimes[i]\<close> is always inside it.
\<close>

function parallel_loop ::
  "(nat \<Rightarrow> draw) \<Rightarrow> int \<Rightarrow> int \<Rightarrow> PreparedToken list \<Rightarrow> real \<Rightarrow> real list
     \<Rightarrow> int \<Rightarrow> nat \<Rightarrow> TokenTask list \<Rightarrow> TokenTask list" where
  "parallel_loop rand totalTokens numWallets' metadata' startTime' randomTimes i k tasks =
     (if i < totalTokens then
        parallel_loop rand totalTokens numWallets' metadata' startTime' randomTimes (i + 1) (k + 1)
          (tasks @
           [\<lparr>tokenIndex = i,
             walletIndex = js_rem i numWallets',
             metadata = js_at metadata' \<lfloor>draw_value (rand k) * real (length metadata')\<rfloor>,
             delayMs = randomTimes ! nat i,
             scheduledTime = startTime' + randomTimes ! nat i\<rparr>])
      else tasks)"
  by pat_completeness auto
termination
  by (relation "measure (\<lambda>(rand, totalTokens, numWallets', metadata', startTime', randomTimes,
        i, k, tasks). nat (totalTokens - i))") auto

declare parallel_loop.simps [simp del]

text \<open>
  Sequential mode: the delay of task \<open>i\<close> is \<open>i * averageDelay\<close>, passed through
  \<open>getRandomDelay\<close> when the configured randomness is positive (one more call of
  \<^verbatim>\<open>Math.random()\<close>).
\<close>

definition sequential_delay :: "BotConfig \<Rightarrow> (nat \<Rightarrow> draw) \<Rightarrow> real \<Rightarrow> int \<Rightarrow> nat \<Rightarrow> real \<times> nat" where
  "sequential_delay cfg rand averageDelay i k =
     (let baseDelay = of_int i * averageDelay
      in if delayRandomness cfg > 0
         then (getRandomDelay (rand k) baseDelay (delayRandomness cfg), k + 1)
         else (baseDelay, k))"

function sequential_loop ::
  "BotConfig \<Rightarrow> (nat \<Rightarrow> draw) \<Rightarrow> real \<Rightarrow> int \<Rightarrow> int \<Rightarrow> PreparedToken list \<Rightarrow> real
     \<Rightarrow> int \<Rightarrow> nat \<Rightarrow> TokenTask list \<Rightarrow> TokenTask list" where
  "sequential_loop cfg rand averageDelay totalTokens numWallets' metadata' startTime' i k tasks =
     (if i < totalTokens then
        (case sequential_delay cfg rand averageDelay i k of
           (delay, k') \<Rightarrow>
             sequential_loop cfg rand averageDelay totalTokens numWallets' metadata' startTime'
               (i + 1) (k' + 1)
               (tasks @
                [\<lparr>tokenIndex = i,
                  walletIndex = js_rem i numWallets',
                  metadata = js_at metadata' \<lfloor>draw_value (rand k') * real (length metadata')\<rfloor>,
                  delayMs = delay,
                  scheduledTime = startTime' + delay\<rparr>]))
      else tasks)"
  by pat_completeness auto
termination
  by (relation "measure (\<lambda>(cfg, rand, averageDelay, totalTokens, numWallets', metadata',
        startTime', i, k, tasks). nat (totalTokens - i))") auto

declare sequential_loop.simps [simp del]

text \<open>
  \<^verbatim>\<open>generateTasks(totalTokens, durationMs, numWallets, metadata, startTime)\<close> of the
  scheduler that calls \<^verbatim>\<open>executeTokenCreation(wallet, task.metadata)\<close>. The
  configuration is a global of the source and a parameter here. Parameters whose names
  are also field names carry a prime.
\<close>

definition generateTasks ::
  "BotConfig \<Rightarrow> (nat \<Rightarrow> draw) \<Rightarrow> int \<Rightarrow> real \<Rightarrow> int \<Rightarrow> PreparedToken list \<Rightarrow> real
     \<Rightarrow> TokenTask list" where
  "generateTasks cfg rand totalTokens durationMs numWallets' metadata' startTime' =
     (let averageDelay = durationMs / of_int totalTokens
      in if executionMode cfg = parallel then
           (case randomTimes_loop rand durationMs totalTokens 0 0 [] of
              (randomTimes, k) \<Rightarrow>
                parallel_loop rand totalTokens numWallets' metadata' startTime'
                  (sort randomTimes) 0 k [])
         else
           sequential_loop cfg rand averageDelay totalTokens numWallets' metadata' startTime'
             0 0 [])"

text \<open>
  The outcome of a call of \<open>generateTasks\<close>, as a caller sees it. The body has no
  \<^verbatim>\<open>throw\<close> and no operation that throws: a read outside an array gives
  \<^verbatim>\<open>undefined\<close>, a remainder by zero gives \<^verbatim>\<open>NaN\<close>, and the division
  \<^verbatim>\<open>durationMs / totalTokens\<close> by zero gives an infinity or \<^verbatim>\<open>NaN\<close> that no iteration uses
  (the loops run only when \<open>totalTokens\<close> is positive). So the call always returns.
\<close>

definition generateTasks_call ::
  "BotConfig \<Rightarrow> (nat \<Rightarrow> draw) \<Rightarrow> int \<Rightarrow> real \<Rightarrow> int \<Rightarrow> PreparedToken list \<Rightarrow> real
     \<Rightarrow> string + TokenTask list" where
  "generateTasks_call cfg rand totalTokens durationMs numWallets' metadata' startTime' =
     Inr (generateTasks cfg rand totalTokens durationMs numWallets' metadata' startTime')"

section \<open>Task generation with cumulative delays\<close>

text \<open>
  The repository holds a second scheduler, \<^verbatim>\<open>src/services/scheduler.ts\<close>, whose
  \<^verbatim>\<open>generateTasks\<close> differs: in parallel mode each task is scheduled at the running sum
  of delays drawn by \<open>getRandomDelay\<close> around the average delay, and the task array is
  shuffled afterwards; in sequential mode the delays are fixed. It is modelled under
  the name \<open>scheduler_ts_generateTasks\<close>.
\<close>

function cumulative_loop ::
  "BotConfig \<Rightarrow> (nat \<Rightarrow> draw) \<Rightarrow> real \<Rightarrow> int \<Rightarrow> int \<Rightarrow> PreparedToken list \<Rightarrow> real
     \<Rightarrow> int \<Rightarrow> nat \<Rightarrow> real \<Rightarrow> TokenTask list \<Rightarrow> TokenTask list \<times> nat" where
  "cumulative_loop cfg rand averageDelay totalTokens numWallets' metadata' startTime' i k
       cumulativeTime tasks =
     (if i < totalTokens then
        cumulative_loop cfg rand averageDelay totalTokens numWallets' metadata' startTime'
          (i + 1) (k + 2)
          (cumulativeTime + getRandomDelay (rand k) averageDelay (delayRandomness cfg))
          (tasks @
           [\<lparr>tokenIndex = i,
             walletIndex = js_rem i numWallets',
             metadata =
               js_at metadata' \<lfloor>draw_value (rand (k + 1)) * real (length metadata')\<rfloor>,
             delayMs =
               cumulativeTime + getRandomDelay (rand k) averageDelay (delayRandomness cfg),
             scheduledTime = startTime' +
               (cumulativeTime + getRandomDelay (rand k) averageDelay (delayRandomness cfg))\<rparr>])
      else (tasks, k))"
  by pat_completeness auto
termination
  by (relation "measure (\<lambda>(cfg, rand, averageDelay, totalTokens, numWallets', metadata',
        startTime', i, k, cumulativeTime, tasks). nat (totalTokens - i))") auto

declare cumulative_loop.simps [simp del]

text \<open>
  The shuffle: for \<open>i\<close> from the last index down to 1, swap entry \<open>i\<close> with entry
  \<open>j = floor (Math.random() * (i + 1))\<close>, which lies between 0 and \<open>i\<close>.
\<close>

function shuffle_loop :: "(nat \<Rightarrow> draw) \<Rightarrow> int \<Rightarrow> nat \<Rightarrow> TokenTask list \<Rightarrow> TokenTask list" where
  "shuffle_loop rand i k tasks =
     (if i > 0 then
        shuffle_loop rand (i - 1) (k + 1)
          (tasks[nat i := tasks ! nat \<lfloor>draw_value (rand k) * of_int (i + 1)\<rfloor>,
                 nat \<lfloor>draw_value (rand k) * of_int (i + 1)\<rfloor> := tasks ! nat i])
      else tasks)"
  by pat_completeness auto
termination
  by (relation "measure (\<lambda>(rand, i, k, tasks). nat i)") auto

declare shuffle_loop.simps [simp del]

function fixed_loop ::
  "(nat \<Rightarrow> draw) \<Rightarrow> real \<Rightarrow> int \<Rightarrow> int \<Rightarrow> PreparedToken list \<Rightarrow> real
     \<Rightarrow> int \<Rightarrow> nat \<Rightarrow> TokenTask list \<Rightarrow> TokenTask list" where
  "fixed_loop rand averageDelay totalTokens numWallets' metadata' startTime' i k tasks =
     (if i < totalTokens then
        fixed_loop rand averageDelay totalTokens numWallets' metadata' startTime' (i + 1) (k + 1)
          (tasks @
           [\<lparr>tokenIndex = i,
             walletIndex = js_rem i numWallets',
             metadata = js_at metadata' \<lfloor>draw_value (rand k) * real (length metadata')\<rfloor>,
             delayMs = of_int i * averageDelay,
             scheduledTime = startTime' + of_int i * averageDelay\<rparr>])
      else tasks)"
  by pat_completeness auto
termination
  by (relation "measure (\<lambda>(rand, averageDelay, totalTokens, numWallets', metadata',
        startTime', i, k, tasks). nat (totalTokens - i))") auto

declare fixed_loop.simps [simp del]

definition scheduler_ts_generateTasks ::
  "BotConfig \<Rightarrow> (nat \<Rightarrow> draw) \<Rightarrow> int \<Rightarrow> real \<Rightarrow> int \<Rightarrow> PreparedToken list \<Rightarrow> real
     \<Rightarrow> TokenTask list" where
  "scheduler_ts_generateTasks cfg rand totalTokens durationMs numWallets' metadata' startTime' =
     (let averageDelay = durationMs / of_int totalTokens
      in if executionMode cfg = parallel then
           (case cumulative_loop cfg rand averageDelay totalTokens numWallets' metadata'
                   startTime' 0 0 0 [] of
              (tasks, k) \<Rightarrow> shuffle_loop rand (int (length tasks) - 1) k tasks)
         else
           fixed_loop rand averageDelay totalTokens numWallets' metadata' startTime' 0 0 [])"

section \<open>The scheduler run\<close>

text \<open>
  \<^verbatim>\<open>deriveWallets(mnemonic, count)\<close> builds \<^verbatim>\<open>Array.from({ length: count }, ...)\<close>, which
  is empty for a count below 1. The address derivation is external: \<open>addressAt i\<close> is
  the address at index \<open>i\<close>.
\<close>

definition deriveWallets :: "(int \<Rightarrow> string) \<Rightarrow> int \<Rightarrow> WalletInstance list" where
  "deriveWallets addressAt count =
     map (\<lambda>i. \<lparr>address = addressAt i, index = i\<rparr>) [0..count - 1]"

text \<open>
  Lines \<^verbatim>\<open>if (!state.startTime) { state.startTime = Date.now(); await saveState(state); }\<close>.
  A start time is falsy when it is absent or 0. The result is the outcome of the save,
  the state in memory, the start time it now holds, and the world.
\<close>

definition setStartTime ::
  "nat \<Rightarrow> int \<Rightarrow> BotState \<Rightarrow> World \<Rightarrow> (string + unit) option \<times> BotState \<times> int \<times> World" where
  "setStartTime caller now state w =
     (case startTime state of
        None \<Rightarrow>
          (case saveState caller (state\<lparr>startTime := Some now\<rparr>) w of
             (r, w') \<Rightarrow> (r, state\<lparr>startTime := Some now\<rparr>, now, w'))
      | Some t \<Rightarrow>
          if t = 0 then
            (case saveState caller (state\<lparr>startTime := Some now\<rparr>) w of
               (r, w') \<Rightarrow> (r, state\<lparr>startTime := Some now\<rparr>, now, w'))
          else (Some (Inr ()), state, t, w))"

text \<open>
  \<^verbatim>\<open>runScheduler()\<close> up to the dispatch. \<open>loadMetadata\<close> is the outcome of the call of
  \<^verbatim>\<open>loadMetadata()\<close>, \<open>now\<close> the value of \<^verbatim>\<open>Date.now()\<close>. The run either returns early
  (\<open>AllCreated\<close>) or starts the tasks: \<open>Started w state tasks dispatched\<close> holds the
  generated tasks and the tasks in the order in which they are handed to
  \<^verbatim>\<open>executeTask\<close> (all of them at once in parallel mode, sorted by scheduled time in
  sequential mode). The result is \<open>None\<close> when the caller was queued for the state lock.
\<close>

datatype SchedulerRun =
    AllCreated World BotState
  | Started World BotState "TokenTask list" "TokenTask list"

definition runScheduler ::
  "BotConfig \<Rightarrow> (nat \<Rightarrow> draw) \<Rightarrow> (int \<Rightarrow> string) \<Rightarrow> (string + PreparedToken list) \<Rightarrow> int
     \<Rightarrow> nat \<Rightarrow> World \<Rightarrow> (string + SchedulerRun) option" where
  "runScheduler cfg rand addressAt loadMetadata now caller w =
     (case loadMetadata of
        Inl err \<Rightarrow> Some (Inl err)
      | Inr metadata' \<Rightarrow>
          if length metadata' = 0 then
            Some (Inl (''No metadata available. Run '' @ [CHR 0x22] @ ''npm run prepare-metadata''
                        @ [CHR 0x22] @ '' to prepare tokens.''))
          else
            (case loadState (stateFile w) of
               Inl err \<Rightarrow> Some (Inl err)
             | Inr state \<Rightarrow>
                 (case setStartTime caller now state w of
                    (None, state1, start, w1) \<Rightarrow> None
                  | (Some (Inl err), state1, start, w1) \<Rightarrow> Some (Inl err)
                  | (Some (Inr u), state1, start, w1) \<Rightarrow>
                      if totalTokensToCreate cfg - tokensCreated state1 = 0 then
                        Some (Inr (AllCreated w1 state1))
                      else
                        (let tasks =
                               generateTasks cfg rand
                                 (totalTokensToCreate cfg - tokensCreated state1)
                                 (durationHours cfg * 60 * 60 * 1000)
                                 (int (length (drop 1
                                    (deriveWallets addressAt (numWallets cfg + 1)))))
                                 metadata' (of_int start)
                         in Some (Inr (Started w1 state1 tasks
                              (if executionMode cfg = parallel then tasks
                               else sort_key scheduledTime tasks)))))))"

text \<open>The tasks that a run hands to \<^verbatim>\<open>executeTask\<close>: none when it failed or returned early.\<close>

fun dispatched :: "(string + SchedulerRun) option \<Rightarrow> TokenTask list" where
  "dispatched (Some (Inr (Started w state tasks ts))) = ts"
| "dispatched r = []"

fun generated :: "(string + SchedulerRun) option \<Rightarrow> TokenTask list" where
  "generated (Some (Inr (Started w state tasks ts))) = tasks"
| "generated r = []"

section \<open>Example inputs\<close>

text \<open>
  A token, a configuration (five tokens in one hour over two wallets, parallel mode,
  the default randomness, retries and retry delay) and a fresh process with no state
  file, used where a statement is evaluated on concrete inputs.
\<close>

definition example_token :: PreparedToken where
  "example_token =
     \<lparr>name = ''Token'', symbol = ''TKN'', tokenURI = ''ipfs://t'', description = ''d'',
      imageUri = ''ipfs://i'', twitter = None, telegram = None, website = None\<rparr>"

definition example_config :: BotConfig where
  "example_config =
     \<lparr>numWallets = 2, totalTokensToCreate = 5, durationHours = 1, executionMode = parallel,
      delayRandomness = 1 / 2, sellPercentage = 100, maxRetries = 3, retryDelayMs = 5000\<rparr>"

definition fresh_world :: "statefile \<Rightarrow> World" where
  "fresh_world f = \<lparr>stateFile = f, stateLock = \<lparr>locked = False, queue = []\<rparr>, trace = []\<rparr>"

definition example_state :: "int \<Rightarrow> BotState" where
  "example_state n =
     \<lparr>tokensCreated = n, startTime = Some 1000, lastCreatedAt = None,
      createdTokens =
        map (\<lambda>i. \<lparr>tokenAddress = ''0xabc'', createdMetadata = example_token, createdAt = 1500,
                   createdWalletIndex = 1\<rparr>) [1..n]\<rparr>"

section \<open>Properties of the wallet lock manager\<close>

lemma tryAcquire_free:
  "\<not> isLocked locks i \<Longrightarrow> tryAcquire locks i = (True, locks(i \<mapsto> True))"
  by (simp add: tryAcquire_def isLocked_def)

lemma tryAcquire_busy:
  "isLocked locks i \<Longrightarrow> tryAcquire locks i = (False, locks)"
  by (simp add: tryAcquire_def isLocked_def)

lemma release_not_locked: "\<not> isLocked (release locks i) i"
  by (simp add: release_def isLocked_def)

lemma release_other: "j \<noteq> i \<Longrightarrow> release locks i j = locks j"
  by (simp add: release_def)

lemma release_free_observably_same:
  "\<not> isLocked locks i \<Longrightarrow> isLocked (release locks i) j = isLocked locks j"
  by (cases "j = i") (simp_all add: release_def isLocked_def)

text \<open>
  Claim C9. For every lock table and every index \<open>i\<close>: \<open>tryAcquire\<close> returns true
  exactly when \<open>i\<close> was not busy, and then \<open>i\<close> is busy afterwards and no other entry
  changed; when \<open>i\<close> was busy it returns false and the table is the same table.
  \<open>release\<close> leaves \<open>i\<close> not busy and touches no other entry; releasing twice is the
  same as releasing once; releasing an index that is not busy changes the busy status of
  no index (and changes nothing at all when the table already holds \<open>false\<close> for it);
  \<open>release\<close> is a total function, so it never raises. After a release, the next
  \<open>tryAcquire\<close> of the same index returns true.
\<close>

theorem C9_wallet_lock_contract:
  "fst (tryAcquire locks i) = (\<not> isLocked locks i)
   \<and> (\<not> isLocked locks i \<longrightarrow>
        isLocked (snd (tryAcquire locks i)) i
        \<and> (\<forall>j. j \<noteq> i \<longrightarrow> snd (tryAcquire locks i) j = locks j))
   \<and> (isLocked locks i \<longrightarrow> snd (tryAcquire locks i) = locks)
   \<and> \<not> isLocked (release locks i) i
   \<and> (\<forall>j. j \<noteq> i \<longrightarrow> release locks i j = locks j)
   \<and> release (release locks i) i = release locks i
   \<and> (\<not> isLocked locks i \<longrightarrow> (\<forall>j. isLocked (release locks i) j = isLocked locks j))
   \<and> (locks i = Some False \<longrightarrow> release locks i = locks)
   \<and> fst (tryAcquire (release locks i) i)"
proof -
  have acq: "fst (tryAcquire locks i) = (\<not> isLocked locks i)"
    by (cases "isLocked locks i") (simp_all add: tryAcquire_free tryAcquire_busy)
  have free: "\<not> isLocked locks i \<longrightarrow>
        isLocked (snd (tryAcquire locks i)) i
        \<and> (\<forall>j. j \<noteq> i \<longrightarrow> snd (tryAcquire locks i) j = locks j)"
    by (simp add: tryAcquire_free isLocked_def)
  have busy: "isLocked locks i \<longrightarrow> snd (tryAcquire locks i) = locks"
    by (simp add: tryAcquire_busy)
  have idem: "release (release locks i) i = release locks i"
    by (simp add: release_def)
  have same: "locks i = Some False \<longrightarrow> release locks i = locks"
    by (auto simp: release_def)
  have again: "fst (tryAcquire (release locks i) i)"
    by (simp add: tryAcquire_free release_not_locked)
  from acq free busy idem same again show ?thesis
    by (simp add: release_not_locked release_other release_free_observably_same)
qed

theorem C9_wallet_lock_contract_witness:
  "tryAcquire (Map.empty(Idx 0 \<mapsto> True)) (Idx 0) = (False, Map.empty(Idx 0 \<mapsto> True))
   \<and> fst (tryAcquire Map.empty (Idx 0))
   \<and> isLocked (snd (tryAcquire Map.empty (Idx 0))) (Idx 0)
   \<and> release (release (Map.empty(Idx 0 \<mapsto> True)) (Idx 0)) (Idx 0)
       = release (Map.empty(Idx 0 \<mapsto> True)) (Idx 0)
   \<and> fst (tryAcquire (release (Map.empty(Idx 0 \<mapsto> True)) (Idx 0)) (Idx 0))"
proof -
  have busy: "isLocked (Map.empty(Idx 0 \<mapsto> True)) (Idx 0)"
    by (simp add: isLocked_def)
  have free: "\<not> isLocked Map.empty (Idx 0)"
    by (simp add: isLocked_def)
  from busy C9_wallet_lock_contract [of "Map.empty(Idx 0 \<mapsto> True)" "Idx 0"]
  have a: "tryAcquire (Map.empty(Idx 0 \<mapsto> True)) (Idx 0) = (False, Map.empty(Idx 0 \<mapsto> True))"
    and b: "release (release (Map.empty(Idx 0 \<mapsto> True)) (Idx 0)) (Idx 0)
       = release (Map.empty(Idx 0 \<mapsto> True)) (Idx 0)"
    and c: "fst (tryAcquire (release (Map.empty(Idx 0 \<mapsto> True)) (Idx 0)) (Idx 0))"
    by (simp_all add: prod_eq_iff)
  from free C9_wallet_lock_contract [of Map.empty "Idx 0"]
  have d: "fst (tryAcquire Map.empty (Idx 0))"
    and e: "isLocked (snd (tryAcquire Map.empty (Idx 0))) (Idx 0)"
    by simp_all
  from a b c d e show ?thesis by simp
qed

section \<open>Properties of the durable state store\<close>

lemma updateState_body_updater_fails:
  "loadState (stateFile w) = Inr s \<Longrightarrow> updater s = Inl e \<Longrightarrow>
   updateState_body updater w = (Inl e, w)"
  by (simp add: updateState_body_def)

lemma updateState_body_commits:
  "loadState (stateFile w) = Inr s \<Longrightarrow> updater s = Inr s' \<Longrightarrow>
   updateState_body updater w =
     (Inr (), w\<lparr>stateFile := Json s', trace := trace w @ [StateWritten s']\<rparr>)"
  by (simp add: updateState_body_def)

lemma withLock_free:
  "\<not> locked (stateLock w) \<Longrightarrow>
   withLock caller fn w =
     (case withLock_body fn (w\<lparr>stateLock := (stateLock w)\<lparr>locked := True\<rparr>\<rparr>) of
        (r, w') \<Rightarrow> (Some r, w'))"
  by (simp add: withLock_def stateLock_acquire_def)

lemma release_after_acquire:
  "\<not> locked l \<Longrightarrow> queue l = [] \<Longrightarrow> stateLock_release (l\<lparr>locked := True\<rparr>) = l"
  by (simp add: stateLock_release_def)

text \<open>
  Claim C3. When the state file loads and the updater raises on the loaded state, the
  locked part of \<open>updateState\<close> returns the updater's error, has written nothing (the
  world is the one before, state file and trace included) and has run the release of the
  exclusive section. For a caller that finds the lock free with nobody queued, the whole
  call returns the error and leaves the world exactly as it was, the lock free again.
\<close>

theorem C3_failed_update_writes_nothing:
  assumes "loadState (stateFile w) = Inr s" and "updater s = Inl e"
  shows "withLock_body (updateState_body updater) w
           = (Inl e, w\<lparr>stateLock := stateLock_release (stateLock w)\<rparr>)
         \<and> stateFile (snd (withLock_body (updateState_body updater) w)) = stateFile w
         \<and> (\<not> locked (stateLock w) \<and> queue (stateLock w) = [] \<longrightarrow>
              updateState caller updater w = (Some (Inl e), w))"
proof -
  have body: "withLock_body (updateState_body updater) w
           = (Inl e, w\<lparr>stateLock := stateLock_release (stateLock w)\<rparr>)"
    using assms by (simp add: withLock_body_def updateState_body_updater_fails)
  have whole: "updateState caller updater w = (Some (Inl e), w)"
    if free: "\<not> locked (stateLock w)" and nobody: "queue (stateLock w) = []"
  proof -
    let ?w1 = "w\<lparr>stateLock := (stateLock w)\<lparr>locked := True\<rparr>\<rparr>"
    have "loadState (stateFile ?w1) = Inr s"
      using assms(1) by simp
    then have "updateState_body updater ?w1 = (Inl e, ?w1)"
      using assms(2) by (rule updateState_body_updater_fails)
    then have "withLock_body (updateState_body updater) ?w1 = (Inl e, w)"
      using free nobody by (simp add: withLock_body_def release_after_acquire)
    then show ?thesis
      using free by (simp add: updateState_def withLock_free)
  qed
  from body whole show ?thesis by simp
qed

theorem C3_failed_update_writes_nothing_witness:
  "updateState 1 (\<lambda>state. Inl ''boom'')
     \<lparr>stateFile = Json \<lparr>tokensCreated = 0, startTime = Some 5, lastCreatedAt = None,
                         createdTokens = []\<rparr>,
      stateLock = \<lparr>locked = False, queue = []\<rparr>, trace = []\<rparr>
   = (Some (Inl ''boom''),
      \<lparr>stateFile = Json \<lparr>tokensCreated = 0, startTime = Some 5, lastCreatedAt = None,
                         createdTokens = []\<rparr>,
      stateLock = \<lparr>locked = False, queue = []\<rparr>, trace = []\<rparr>)"
  using C3_failed_update_writes_nothing
    [of "\<lparr>stateFile = Json \<lparr>tokensCreated = 0, startTime = Some 5, lastCreatedAt = None,
                         createdTokens = []\<rparr>,
      stateLock = \<lparr>locked = False, queue = []\<rparr>, trace = []\<rparr>"
        "\<lparr>tokensCreated = 0, startTime = Some 5, lastCreatedAt = None, createdTokens = []\<rparr>"
        "\<lambda>state. Inl ''boom''" "''boom''" 1]
  by (simp add: loadState_def)

lemma creationUpdater_count_matches:
  "count_matches s \<Longrightarrow> creationUpdater a md wi t1 t2 s = Inr s' \<Longrightarrow> count_matches s'"
  by (auto simp: creationUpdater_def count_matches_def)

lemma updateState_free_commits:
  assumes "loadState (stateFile w) = Inr s" and "updater s = Inr s'"
    and "\<not> locked (stateLock w)" and "queue (stateLock w) = []"
  shows "updateState caller updater w =
           (Some (Inr ()), w\<lparr>stateFile := Json s', trace := trace w @ [StateWritten s']\<rparr>)"
proof -
  let ?w1 = "w\<lparr>stateLock := (stateLock w)\<lparr>locked := True\<rparr>\<rparr>"
  have "loadState (stateFile ?w1) = Inr s"
    using assms(1) by simp
  then have "updateState_body updater ?w1 =
      (Inr (), ?w1\<lparr>stateFile := Json s', trace := trace ?w1 @ [StateWritten s']\<rparr>)"
    using assms(2) by (rule updateState_body_commits)
  then have "withLock_body (updateState_body updater) ?w1 =
      (Inr (), w\<lparr>stateFile := Json s', trace := trace w @ [StateWritten s']\<rparr>)"
    using assms(3,4) by (simp add: withLock_body_def release_after_acquire)
  then show ?thesis
    using assms(3) by (simp add: updateState_def withLock_free)
qed

text \<open>
  Claim C4. The record that \<open>loadState\<close> returns when there is no state file satisfies
  \<open>createdTokens.length = tokensCreated\<close>. The updater of the job-completion path never
  fails, adds one to the count and one entry to the list, and so preserves the
  invariant. Hence an \<open>updateState\<close> with that updater, run on a state file whose
  record satisfies the invariant (or on no file), commits a record that satisfies it,
  and the next \<open>loadState\<close> returns that record. This holds for the locked part of
  \<open>updateState\<close>, however the lock was obtained, and for the whole call of a caller that
  finds the lock free.
\<close>

theorem C4_count_matches_preserved:
  "(\<exists>s0. loadState Missing = Inr s0 \<and> count_matches s0 \<and> tokensCreated s0 = 0)
   \<and> (\<exists>s'. creationUpdater a md wi t1 t2 s = Inr s'
           \<and> tokensCreated s' = tokensCreated s + 1
           \<and> length (createdTokens s') = length (createdTokens s) + 1
           \<and> (count_matches s \<longrightarrow> count_matches s'))
   \<and> (loadState (stateFile w) = Inr s \<and> count_matches s \<longrightarrow>
        (\<exists>w' s'. withLock_body (updateState_body (creationUpdater a md wi t1 t2)) w
                   = (Inr (), w')
            \<and> loadState (stateFile w') = Inr s' \<and> count_matches s'
            \<and> tokensCreated s' = tokensCreated s + 1))
   \<and> (loadState (stateFile w) = Inr s \<and> count_matches s
        \<and> \<not> locked (stateLock w) \<and> queue (stateLock w) = [] \<longrightarrow>
        (\<exists>w' s'. updateState caller (creationUpdater a md wi t1 t2) w = (Some (Inr ()), w')
            \<and> loadState (stateFile w') = Inr s' \<and> count_matches s'
            \<and> tokensCreated s' = tokensCreated s + 1))"
proof -
  have empty: "\<exists>s0. loadState Missing = Inr s0 \<and> count_matches s0 \<and> tokensCreated s0 = 0"
    by (simp add: loadState_def count_matches_def)
  obtain s' where upd: "creationUpdater a md wi t1 t2 s = Inr s'"
    and cnt: "tokensCreated s' = tokensCreated s + 1"
    and len: "length (createdTokens s') = length (createdTokens s) + 1"
    by (simp add: creationUpdater_def)
  have pres: "count_matches s \<longrightarrow> count_matches s'"
    using upd by (auto intro: creationUpdater_count_matches)
  have commit: "\<exists>w' s'. updateState caller (creationUpdater a md wi t1 t2) w = (Some (Inr ()), w')
            \<and> loadState (stateFile w') = Inr s' \<and> count_matches s'
            \<and> tokensCreated s' = tokensCreated s + 1"
    if "loadState (stateFile w) = Inr s" and "count_matches s"
      and "\<not> locked (stateLock w)" and "queue (stateLock w) = []"
  proof -
    have "updateState caller (creationUpdater a md wi t1 t2) w =
           (Some (Inr ()), w\<lparr>stateFile := Json s', trace := trace w @ [StateWritten s']\<rparr>)"
      using that(1) upd that(3,4) by (rule updateState_free_commits)
    moreover have "count_matches s'"
      using pres that(2) by simp
    ultimately show ?thesis
      using cnt by (simp add: loadState_def)
  qed
  have held: "\<exists>w' s'. withLock_body (updateState_body (creationUpdater a md wi t1 t2)) w
                   = (Inr (), w')
            \<and> loadState (stateFile w') = Inr s' \<and> count_matches s'
            \<and> tokensCreated s' = tokensCreated s + 1"
    if "loadState (stateFile w) = Inr s" and "count_matches s"
  proof -
    have "updateState_body (creationUpdater a md wi t1 t2) w =
           (Inr (), w\<lparr>stateFile := Json s', trace := trace w @ [StateWritten s']\<rparr>)"
      using that(1) upd by (rule updateState_body_commits)
    moreover have "count_matches s'"
      using pres that(2) by simp
    ultimately show ?thesis
      using cnt by (simp add: withLock_body_def loadState_def)
  qed
  from empty upd cnt len pres held commit show ?thesis
    by blast
qed

theorem C4_count_matches_preserved_witness:
  "loadState Missing = Inr \<lparr>tokensCreated = 0, startTime = None, lastCreatedAt = None,
                            createdTokens = []\<rparr>
   \<and> count_matches \<lparr>tokensCreated = 0, startTime = None, lastCreatedAt = None,
                     createdTokens = []\<rparr>
   \<and> (\<exists>w' s'. updateState 1
          (creationUpdater ''0xabc''
             \<lparr>name = ''n'', symbol = ''S'', tokenURI = ''u'', description = ''d'',
              imageUri = ''i'', twitter = None, telegram = None, website = None\<rparr> 2 10 11)
          \<lparr>stateFile = Missing, stateLock = \<lparr>locked = False, queue = []\<rparr>, trace = []\<rparr>
        = (Some (Inr ()), w')
        \<and> loadState (stateFile w') = Inr s' \<and> count_matches s' \<and> tokensCreated s' = 1)"
  using C4_count_matches_preserved
    [of "''0xabc''"
        "\<lparr>name = ''n'', symbol = ''S'', tokenURI = ''u'', description = ''d'',
              imageUri = ''i'', twitter = None, telegram = None, website = None\<rparr>"
        2 10 11
        "\<lparr>tokensCreated = 0, startTime = None, lastCreatedAt = None, createdTokens = []\<rparr>"
        "\<lparr>stateFile = Missing, stateLock = \<lparr>locked = False, queue = []\<rparr>, trace = []\<rparr>"
        1]
  by (simp add: loadState_def count_matches_def)

section \<open>Properties of the retry wrapper\<close>

lemma withRetry_loop_success:
  "a \<le> k \<Longrightarrow> k \<le> m \<Longrightarrow> (\<forall>j. a \<le> j \<and> j < k \<longrightarrow> isl (fn j)) \<Longrightarrow> fn k = Inr v \<Longrightarrow>
   withRetry_loop fn t m d a tr =
     (Inr v, tr @ concat (map (\<lambda>j. [OperationCalled j, Slept (d * j)]) [a..k - 1]) @ [OperationCalled k])"
proof (induction fn t m d a tr rule: withRetry_loop.induct)
  case (1 fn taskName maxRetries retryDelay attempt performed)
  show ?case
  proof (cases "attempt = k")
    case True
    with 1 show ?thesis by (subst withRetry_loop.simps) simp
  next
    case False
    with 1 have lt: "attempt < k" by simp
    with 1 have "isl (fn attempt)" by simp
    then obtain msg where msg: "fn attempt = Inl msg" by (cases "fn attempt") auto
    have up: "[attempt..k - 1] = attempt # [attempt + 1..k - 1]"
      using lt by (simp add: upto_rec1)
    have "withRetry_loop fn taskName maxRetries retryDelay attempt performed =
          withRetry_loop fn taskName maxRetries retryDelay (attempt + 1)
            (performed @ [OperationCalled attempt, Slept (retryDelay * attempt)])"
      using lt 1(3) msg by (subst withRetry_loop.simps) simp
    also have "\<dots> = (Inr v, (performed @ [OperationCalled attempt, Slept (retryDelay * attempt)]) @
        concat (map (\<lambda>j. [OperationCalled j, Slept (retryDelay * j)]) [attempt + 1..k - 1]) @ [OperationCalled k])"
      using lt 1 msg by (intro "1.IH") auto
    finally show ?thesis using up by simp
  qed
qed

lemma withRetry_loop_exhausted:
  "a \<le> m \<Longrightarrow> (\<forall>j. a \<le> j \<and> j \<le> m \<longrightarrow> isl (fn j)) \<Longrightarrow>
   withRetry_loop fn t m d a tr =
     (Inl (t @ '' failed after '' @ show_int m @ '' attempts: '' @ projl (fn m)),
      tr @ concat (map (\<lambda>j. [OperationCalled j, Slept (d * j)]) [a..m - 1]) @ [OperationCalled m])"
proof (induction fn t m d a tr rule: withRetry_loop.induct)
  case (1 fn taskName maxRetries retryDelay attempt performed)
  from 1 have "isl (fn attempt)" by simp
  then obtain msg where msg: "fn attempt = Inl msg" by (cases "fn attempt") auto
  show ?case
  proof (cases "attempt = maxRetries")
    case True
    with msg show ?thesis by (subst withRetry_loop.simps) simp
  next
    case False
    with 1 have lt: "attempt < maxRetries" by simp
    have up: "[attempt..maxRetries - 1] = attempt # [attempt + 1..maxRetries - 1]"
      using lt by (simp add: upto_rec1)
    have "withRetry_loop fn taskName maxRetries retryDelay attempt performed =
          withRetry_loop fn taskName maxRetries retryDelay (attempt + 1)
            (performed @ [OperationCalled attempt, Slept (retryDelay * attempt)])"
      using lt msg by (subst withRetry_loop.simps) simp
    also have "\<dots> = (Inl (taskName @ '' failed after '' @ show_int maxRetries @ '' attempts: '' @ projl (fn maxRetries)),
        (performed @ [OperationCalled attempt, Slept (retryDelay * attempt)]) @
        concat (map (\<lambda>j. [OperationCalled j, Slept (retryDelay * j)]) [attempt + 1..maxRetries - 1]) @ [OperationCalled maxRetries])"
      using lt 1 msg by (intro "1.IH") auto
    finally show ?thesis using up by simp
  qed
qed

lemma withRetry_loop_calls_bounded:
  "a \<le> m + 1 \<Longrightarrow>
   length (filter is_call (snd (withRetry_loop fn t m d a tr)))
     \<le> length (filter is_call tr) + nat (m + 1 - a)"
proof (induction fn t m d a tr rule: withRetry_loop.induct)
  case (1 fn taskName maxRetries retryDelay attempt performed)
  show ?case
  proof (cases "attempt < maxRetries \<and> isl (fn attempt)")
    case True
    then obtain msg where msg: "fn attempt = Inl msg" by (cases "fn attempt") auto
    have "withRetry_loop fn taskName maxRetries retryDelay attempt performed =
          withRetry_loop fn taskName maxRetries retryDelay (attempt + 1)
            (performed @ [OperationCalled attempt, Slept (retryDelay * attempt)])"
      using True msg by (subst withRetry_loop.simps) simp
    moreover have "length (filter is_call (snd (withRetry_loop fn taskName maxRetries retryDelay (attempt + 1)
            (performed @ [OperationCalled attempt, Slept (retryDelay * attempt)]))))
       \<le> length (filter is_call (performed @ [OperationCalled attempt, Slept (retryDelay * attempt)]))
          + nat (maxRetries + 1 - (attempt + 1))"
      using True msg by (intro "1.IH") auto
    moreover have "nat (maxRetries + 1 - attempt) = Suc (nat (maxRetries + 1 - (attempt + 1)))"
      using True by linarith
    ultimately show ?thesis by simp
  next
    case False
    then show ?thesis using 1(2)
      by (subst withRetry_loop.simps) (auto split: sum.splits)
  qed
qed

lemma calls_of_failed_attempts:
  "length (filter is_call (concat (map (\<lambda>j. [OperationCalled j, Slept (d * j)]) xs))) = length xs"
  by (induction xs) auto

text \<open>
  Claim C6. For \<open>maxRetries' \<ge> 1\<close>: the operation is invoked at most \<open>maxRetries'\<close>
  times. If it fails in attempts \<open>1, \<dots>, k - 1\<close> and succeeds in attempt
  \<open>k \<le> maxRetries'\<close>, \<open>withRetry\<close> returns its value; what it did is exactly: attempt
  \<open>j\<close> followed by a delay of \<open>retryDelay * j\<close> for each failed \<open>j < k\<close>, then attempt
  \<open>k\<close> and nothing after it. If it fails in every attempt up to \<open>maxRetries'\<close>, the
  result is an error whose message is the task name, \<open>failed after\<close>, the number
  \<open>maxRetries'\<close>, \<open>attempts:\<close> and the message of the last failure, after exactly
  \<open>maxRetries'\<close> invocations and no delay after the last one.
\<close>

theorem C6_withRetry_contract:
  assumes "1 \<le> maxRetries'"
  shows "length (filter is_call (snd (withRetry fn taskName maxRetries' retryDelay))) \<le> nat maxRetries'
    \<and> (\<forall>k v. 1 \<le> k \<and> k \<le> maxRetries' \<and> (\<forall>j. 1 \<le> j \<and> j < k \<longrightarrow> isl (fn j)) \<and> fn k = Inr v \<longrightarrow>
          withRetry fn taskName maxRetries' retryDelay =
            (Inr v, concat (map (\<lambda>j. [OperationCalled j, Slept (retryDelay * j)]) [1..k - 1])
                     @ [OperationCalled k]))
    \<and> ((\<forall>j. 1 \<le> j \<and> j \<le> maxRetries' \<longrightarrow> isl (fn j)) \<longrightarrow>
          withRetry fn taskName maxRetries' retryDelay =
            (Inl (taskName @ '' failed after '' @ show_int maxRetries' @ '' attempts: ''
                    @ projl (fn maxRetries')),
             concat (map (\<lambda>j. [OperationCalled j, Slept (retryDelay * j)]) [1..maxRetries' - 1])
               @ [OperationCalled maxRetries'])
          \<and> length (filter is_call (snd (withRetry fn taskName maxRetries' retryDelay)))
              = nat maxRetries')"
proof -
  have bound: "length (filter is_call (snd (withRetry fn taskName maxRetries' retryDelay))) \<le> nat maxRetries'"
    using assms withRetry_loop_calls_bounded [of 1 maxRetries' fn taskName retryDelay "[]"]
    by (simp add: withRetry_def)
  have succ: "withRetry fn taskName maxRetries' retryDelay =
            (Inr v, concat (map (\<lambda>j. [OperationCalled j, Slept (retryDelay * j)]) [1..k - 1])
                     @ [OperationCalled k])"
    if "1 \<le> k" "k \<le> maxRetries'" "\<forall>j. 1 \<le> j \<and> j < k \<longrightarrow> isl (fn j)" "fn k = Inr v" for k v
    using that withRetry_loop_success [of 1 k maxRetries' fn v taskName retryDelay "[]"]
    by (simp add: withRetry_def)
  have exh: "withRetry fn taskName maxRetries' retryDelay =
            (Inl (taskName @ '' failed after '' @ show_int maxRetries' @ '' attempts: ''
                    @ projl (fn maxRetries')),
             concat (map (\<lambda>j. [OperationCalled j, Slept (retryDelay * j)]) [1..maxRetries' - 1])
               @ [OperationCalled maxRetries'])"
    if "\<forall>j. 1 \<le> j \<and> j \<le> maxRetries' \<longrightarrow> isl (fn j)"
    using that assms withRetry_loop_exhausted [of 1 maxRetries' fn taskName retryDelay "[]"]
    by (simp add: withRetry_def)
  have cnt: "length (filter is_call (snd (withRetry fn taskName maxRetries' retryDelay))) = nat maxRetries'"
    if "\<forall>j. 1 \<le> j \<and> j \<le> maxRetries' \<longrightarrow> isl (fn j)"
    using exh [OF that] assms by (simp add: calls_of_failed_attempts)
  from bound succ exh cnt show ?thesis by blast
qed

theorem C6_withRetry_contract_witness:
  "withRetry (\<lambda>k. if k < 3 then Inl ''down'' else Inr (42::nat)) ''Sell tokens for S'' 3 5000
     = (Inr 42, [OperationCalled 1, Slept 5000, OperationCalled 2, Slept 10000, OperationCalled 3])
   \<and> withRetry (\<lambda>k. if k < 3 then Inl ''down'' else (Inl ''last'' :: string + nat)) ''Sell tokens for S'' 3 5000
     = (Inl ''Sell tokens for S failed after 3 attempts: last'',
        [OperationCalled 1, Slept 5000, OperationCalled 2, Slept 10000, OperationCalled 3])"
proof -
  have up: "[1..(2::int)] = [1, 2]"
    by (simp add: upto_rec1)
  have s3: "show_int 3 = ''3''"
    by (simp add: show_int_def show_nat.simps digit_char_def)
  have a: "withRetry (\<lambda>k. if k < 3 then Inl ''down'' else Inr (42::nat)) ''Sell tokens for S'' 3 5000
     = (Inr 42, [OperationCalled 1, Slept 5000, OperationCalled 2, Slept 10000, OperationCalled 3])"
    using C6_withRetry_contract [of 3 "\<lambda>k. if k < 3 then Inl ''down'' else Inr (42::nat)"
        "''Sell tokens for S''" 5000, THEN conjunct2, THEN conjunct1, rule_format, of 3 42]
    by (simp add: up)
  have b: "withRetry (\<lambda>k. if k < 3 then Inl ''down'' else (Inl ''last'' :: string + nat)) ''Sell tokens for S'' 3 5000
     = (Inl ''Sell tokens for S failed after 3 attempts: last'',
        [OperationCalled 1, Slept 5000, OperationCalled 2, Slept 10000, OperationCalled 3])"
    using C6_withRetry_contract [of 3 "\<lambda>k. if k < 3 then Inl ''down'' else (Inl ''last'' :: string + nat)"
        "''Sell tokens for S''" 5000, THEN conjunct2, THEN conjunct2, rule_format]
    by (simp add: up s3)
  from a b show ?thesis by simp
qed

section \<open>Properties of the task generator\<close>

text \<open>
  Closed forms of the loops: iteration \<open>j\<close> appends the task with token index \<open>j\<close>.
  The triple below is a task's token index, its wallet index, and the time its schedule
  is anchored at.
\<close>

lemma draw_value_bounds: "0 \<le> draw_value r \<and> draw_value r < 1"
  using draw_value [of r] by simp

lemma draw_value_Draw: "0 \<le> x \<Longrightarrow> x < 1 \<Longrightarrow> draw_value (Draw x) = x"
  by (simp add: Draw_inverse)

lemma upto_0_nth_map: "length xs = nat n \<Longrightarrow> map (\<lambda>j. xs ! nat j) [0..n - 1] = xs"
  by (rule nth_equalityI) simp_all

lemma call_number_shift:
  "i + 1 \<le> x \<Longrightarrow> k + 1 + nat (x - (i + 1)) = k + nat (x - i)"
  by linarith

lemma randomTimes_loop_eq:
  "randomTimes_loop rand d n i k acc =
     (acc @ map (\<lambda>j. draw_value (rand (k + nat (j - i))) * d) [i..n - 1], k + nat (n - i))"
proof (induction rand d n i k acc rule: randomTimes_loop.induct)
  case (1 rand durationMs totalTokens i k randomTimes)
  show ?case
  proof (cases "i < totalTokens")
    case True
    then have up: "[i..totalTokens - 1] = i # [i + 1..totalTokens - 1]"
      by (simp add: upto_rec1)
    have shift: "map (\<lambda>j. draw_value (rand (k + 1 + nat (j - (i + 1)))) * durationMs) [i + 1..totalTokens - 1]
        = map (\<lambda>j. draw_value (rand (k + nat (j - i))) * durationMs) [i + 1..totalTokens - 1]"
      by (rule map_cong) (simp_all only: call_number_shift atLeastAtMost_iff set_upto)
    have n: "k + 1 + nat (totalTokens - (i + 1)) = k + nat (totalTokens - i)"
      using True by linarith
    have "randomTimes_loop rand durationMs totalTokens i k randomTimes =
          randomTimes_loop rand durationMs totalTokens (i + 1) (k + 1)
            (randomTimes @ [draw_value (rand k) * durationMs])"
      using True by (subst randomTimes_loop.simps) simp
    also have "\<dots> = ((randomTimes @ [draw_value (rand k) * durationMs]) @
         map (\<lambda>j. draw_value (rand (k + 1 + nat (j - (i + 1)))) * durationMs) [i + 1..totalTokens - 1],
         k + 1 + nat (totalTokens - (i + 1)))"
      using True by (rule "1.IH")
    also have "\<dots> = (randomTimes @ map (\<lambda>j. draw_value (rand (k + nat (j - i))) * durationMs) [i..totalTokens - 1],
         k + nat (totalTokens - i))"
      unfolding shift n up by simp
    finally show ?thesis .
  next
    case False
    then show ?thesis
      by (subst randomTimes_loop.simps) simp
  qed
qed

lemma parallel_loop_eq:
  "parallel_loop rand n nw md st rts i k tasks =
     tasks @ map (\<lambda>j. \<lparr>tokenIndex = j, walletIndex = js_rem j nw,
                       metadata = js_at md \<lfloor>draw_value (rand (k + nat (j - i))) * real (length md)\<rfloor>,
                       delayMs = rts ! nat j, scheduledTime = st + rts ! nat j\<rparr>) [i..n - 1]"
proof (induction rand n nw md st rts i k tasks rule: parallel_loop.induct)
  case (1 rand totalTokens nw md st rts i k tasks)
  show ?case
  proof (cases "i < totalTokens")
    case True
    then have up: "[i..totalTokens - 1] = i # [i + 1..totalTokens - 1]"
      by (simp add: upto_rec1)
    have shift: "map (\<lambda>j. \<lparr>tokenIndex = j, walletIndex = js_rem j nw,
                       metadata = js_at md \<lfloor>draw_value (rand (k + 1 + nat (j - (i + 1)))) * real (length md)\<rfloor>,
                       delayMs = rts ! nat j, scheduledTime = st + rts ! nat j\<rparr>) [i + 1..totalTokens - 1]
        = map (\<lambda>j. \<lparr>tokenIndex = j, walletIndex = js_rem j nw,
                       metadata = js_at md \<lfloor>draw_value (rand (k + nat (j - i))) * real (length md)\<rfloor>,
                       delayMs = rts ! nat j, scheduledTime = st + rts ! nat j\<rparr>) [i + 1..totalTokens - 1]"
      by (rule map_cong) (simp_all only: call_number_shift atLeastAtMost_iff set_upto)
    have "parallel_loop rand totalTokens nw md st rts i k tasks =
          parallel_loop rand totalTokens nw md st rts (i + 1) (k + 1)
           (tasks @ [\<lparr>tokenIndex = i, walletIndex = js_rem i nw,
                       metadata = js_at md \<lfloor>draw_value (rand k) * real (length md)\<rfloor>,
                       delayMs = rts ! nat i, scheduledTime = st + rts ! nat i\<rparr>])"
      using True by (subst parallel_loop.simps) simp
    also have "\<dots> = (tasks @ [\<lparr>tokenIndex = i, walletIndex = js_rem i nw,
                       metadata = js_at md \<lfloor>draw_value (rand k) * real (length md)\<rfloor>,
                       delayMs = rts ! nat i, scheduledTime = st + rts ! nat i\<rparr>]) @
          map (\<lambda>j. \<lparr>tokenIndex = j, walletIndex = js_rem j nw,
                       metadata = js_at md \<lfloor>draw_value (rand (k + 1 + nat (j - (i + 1)))) * real (length md)\<rfloor>,
                       delayMs = rts ! nat j, scheduledTime = st + rts ! nat j\<rparr>) [i + 1..totalTokens - 1]"
      using True by (rule "1.IH")
    also have "\<dots> = tasks @ map (\<lambda>j. \<lparr>tokenIndex = j, walletIndex = js_rem j nw,
                       metadata = js_at md \<lfloor>draw_value (rand (k + nat (j - i))) * real (length md)\<rfloor>,
                       delayMs = rts ! nat j, scheduledTime = st + rts ! nat j\<rparr>) [i..totalTokens - 1]"
      unfolding shift up by simp
    finally show ?thesis .
  next
    case False
    then show ?thesis
      by (subst parallel_loop.simps) simp
  qed
qed


lemma sequential_loop_slots:
  "map (\<lambda>t. (tokenIndex t, walletIndex t, scheduledTime t - delayMs t))
       (sequential_loop cfg rand avg n nw md st i k tasks) =
   map (\<lambda>t. (tokenIndex t, walletIndex t, scheduledTime t - delayMs t)) tasks @
   map (\<lambda>j. (j, js_rem j nw, st)) [i..n - 1]"
proof (induction cfg rand avg n nw md st i k tasks rule: sequential_loop.induct)
  case (1 cfg rand avg totalTokens nw md st i k tasks)
  show ?case
  proof (cases "i < totalTokens")
    case True
    then have up: "[i..totalTokens - 1] = i # [i + 1..totalTokens - 1]"
      by (simp add: upto_rec1)
    obtain delay k' where d: "sequential_delay cfg rand avg i k = (delay, k')"
      by (cases "sequential_delay cfg rand avg i k")
    have "sequential_loop cfg rand avg totalTokens nw md st i k tasks =
          sequential_loop cfg rand avg totalTokens nw md st (i + 1) (k' + 1)
            (tasks @ [\<lparr>tokenIndex = i, walletIndex = js_rem i nw,
                        metadata = js_at md \<lfloor>draw_value (rand k') * real (length md)\<rfloor>,
                        delayMs = delay, scheduledTime = st + delay\<rparr>])"
      using True d by (subst sequential_loop.simps) simp
    then show ?thesis
      using "1.IH" [OF True d [symmetric]] by (simp add: up)
  next
    case False
    then show ?thesis
      by (subst sequential_loop.simps) simp
  qed
qed

lemma parallel_loop_slots:
  "map (\<lambda>t. (tokenIndex t, walletIndex t, scheduledTime t - delayMs t))
       (parallel_loop rand n nw md st rts i k tasks) =
   map (\<lambda>t. (tokenIndex t, walletIndex t, scheduledTime t - delayMs t)) tasks @
   map (\<lambda>j. (j, js_rem j nw, st)) [i..n - 1]"
  by (simp add: parallel_loop_eq comp_def)

lemma parallel_loop_delays:
  "map delayMs (parallel_loop rand n nw md st rts i k tasks) =
   map delayMs tasks @ map (\<lambda>j. rts ! nat j) [i..n - 1]"
  by (simp add: parallel_loop_eq comp_def)

lemma generateTasks_slots:
  "map (\<lambda>t. (tokenIndex t, walletIndex t, scheduledTime t - delayMs t))
       (generateTasks cfg rand n d nw md st) =
   map (\<lambda>j. (j, js_rem j nw, st)) [0..n - 1]"
  by (simp add: generateTasks_def Let_def parallel_loop_slots sequential_loop_slots
        randomTimes_loop_eq)

lemma generateTasks_length: "length (generateTasks cfg rand n d nw md st) = nat n"
proof -
  have "length (generateTasks cfg rand n d nw md st) =
        length (map (\<lambda>t. (tokenIndex t, walletIndex t, scheduledTime t - delayMs t))
                 (generateTasks cfg rand n d nw md st))"
    by simp
  also have "\<dots> = nat n"
    unfolding generateTasks_slots by simp
  finally show ?thesis .
qed

lemma generateTasks_nth:
  assumes "0 \<le> i" and "i < n"
  shows "tokenIndex (generateTasks cfg rand n d nw md st ! nat i) = i"
    and "walletIndex (generateTasks cfg rand n d nw md st ! nat i) = js_rem i nw"
    and "scheduledTime (generateTasks cfg rand n d nw md st ! nat i) =
           st + delayMs (generateTasks cfg rand n d nw md st ! nat i)"
proof -
  let ?ts = "generateTasks cfg rand n d nw md st"
  let ?f = "\<lambda>t. (tokenIndex t, walletIndex t, scheduledTime t - delayMs t)"
  have len: "nat i < length ?ts"
    using assms by (simp add: generateTasks_length)
  then have "?f (?ts ! nat i) = map ?f ?ts ! nat i"
    by simp
  also have "\<dots> = map (\<lambda>j. (j, js_rem j nw, st)) [0..n - 1] ! nat i"
    by (simp only: generateTasks_slots)
  also have "\<dots> = (i, js_rem i nw, st)"
    using assms by simp
  finally have eq: "?f (?ts ! nat i) = (i, js_rem i nw, st)" .
  from eq show "tokenIndex (?ts ! nat i) = i" by simp
  from eq show "walletIndex (?ts ! nat i) = js_rem i nw" by simp
  from eq show "scheduledTime (?ts ! nat i) = st + delayMs (?ts ! nat i)" by simp
qed

lemma js_rem_valid: "0 \<le> i \<Longrightarrow> 1 \<le> n \<Longrightarrow> js_rem i n = Idx (i mod n)"
  by (cases "i = 0") (simp_all add: js_rem_def)

lemma generateTasks_parallel_delays:
  assumes "executionMode cfg = parallel"
  shows "map delayMs (generateTasks cfg rand n d nw md st) =
         sort (map (\<lambda>j. draw_value (rand (nat j)) * d) [0..n - 1])"
proof -
  let ?rts = "sort (map (\<lambda>j. draw_value (rand (nat j)) * d) [0..n - 1])"
  have len: "length ?rts = nat n"
    by simp
  have "map delayMs (generateTasks cfg rand n d nw md st) = map (\<lambda>j. ?rts ! nat j) [0..n - 1]"
    using assms by (simp add: generateTasks_def Let_def randomTimes_loop_eq parallel_loop_delays)
  also have "\<dots> = ?rts"
    using len by (rule upto_0_nth_map)
  finally show ?thesis .
qed

text \<open>
  The array reads that the model writes with \<open>!\<close> are inside the array: the sorted
  random times have one entry for each iteration of the second loop, and the shuffle
  index lies between 0 and \<open>i\<close>.
\<close>

lemma randomTimes_read_in_range:
  "0 \<le> i \<Longrightarrow> i < n \<Longrightarrow> nat i < length (sort (fst (randomTimes_loop rand d n 0 0 [])))"
  by (simp add: randomTimes_loop_eq)

lemma shuffle_index_in_range:
  assumes "0 < i"
  shows "0 \<le> \<lfloor>draw_value r * of_int (i + 1)\<rfloor>" and "\<lfloor>draw_value r * of_int (i + 1)\<rfloor> \<le> i"
proof -
  have lo: "0 \<le> draw_value r" and hi: "draw_value r < 1"
    using draw_value_bounds by simp_all
  have pos: "(0::real) < of_int (i + 1)"
    using assms by simp
  show "0 \<le> \<lfloor>draw_value r * of_int (i + 1)\<rfloor>"
    using lo pos by simp
  have "draw_value r * of_int (i + 1) < 1 * of_int (i + 1)"
    using hi pos by (rule mult_strict_right_mono)
  then have "draw_value r * of_int (i + 1) < of_int (i + 1)"
    by simp
  then have "\<lfloor>draw_value r * of_int (i + 1)\<rfloor> < i + 1"
    by (simp only: floor_less_iff)
  then show "\<lfloor>draw_value r * of_int (i + 1)\<rfloor> \<le> i"
    by simp
qed

section \<open>Claims about the task generator\<close>

text \<open>
  The generator does not validate its arguments: with a count of 0 it returns the empty
  list, with a pool of 0 wallets a task whose wallet index is \<^verbatim>\<open>NaN\<close>, with an empty
  metadata pool a task whose metadata is \<^verbatim>\<open>undefined\<close>. None of the three calls fails.
\<close>

theorem C2_generator_without_validation_counterexample:
  "generateTasks_call example_config (\<lambda>k. Draw (1 / 2)) 0 3600000 2 [example_token] 1000 = Inr []
   \<and> generateTasks_call example_config (\<lambda>k. Draw (1 / 2)) 1 3600000 0 [example_token] 1000
       = Inr [\<lparr>tokenIndex = 0, walletIndex = NaN, metadata = Some example_token,
                delayMs = 1800000, scheduledTime = 1801000\<rparr>]
   \<and> generateTasks_call example_config (\<lambda>k. Draw (1 / 2)) 1 3600000 2 [] 1000
       = Inr [\<lparr>tokenIndex = 0, walletIndex = Idx 0, metadata = None,
                delayMs = 1800000, scheduledTime = 1801000\<rparr>]"
  by (simp add: generateTasks_call_def generateTasks_def example_config_def
        randomTimes_loop.simps parallel_loop.simps draw_value_Draw js_rem_def js_at_def)

text \<open>
  Claim C2, as amended. The generator never fails: for every input, valid or not, the
  call returns a task list, of length \<open>max(totalTokens, 0)\<close>; for a count below 1 this
  is the empty list. In particular it does not fail on valid inputs.
\<close>

theorem C2_generator_never_fails:
  "(\<exists>tasks. generateTasks_call cfg rand totalTokens durationMs nw md st = Inr tasks
            \<and> length tasks = nat totalTokens)
   \<and> (totalTokens < 1 \<longrightarrow>
        generateTasks_call cfg rand totalTokens durationMs nw md st = Inr [])"
proof -
  have len: "length (generateTasks cfg rand totalTokens durationMs nw md st) = nat totalTokens"
    by (rule generateTasks_length)
  have "generateTasks cfg rand totalTokens durationMs nw md st = []" if "totalTokens < 1"
    using len that by simp
  with len show ?thesis
    by (simp add: generateTasks_call_def)
qed

theorem C2_generator_never_fails_witness:
  "generateTasks_call (example_config\<lparr>executionMode := sequential\<rparr>) (\<lambda>k. Draw (1 / 2)) (- 2)
     3600000 0 [] 1000 = Inr []"
  using C2_generator_never_fails [of "example_config\<lparr>executionMode := sequential\<rparr>"
      "\<lambda>k. Draw (1 / 2)" "- 2" 3600000 0 "[]" 1000]
  by simp

lemma generateTasks_anchored:
  assumes "t \<in> set (generateTasks cfg rand n d nw md st)"
  shows "scheduledTime t = st + delayMs t"
proof -
  from assms obtain m where m: "m < length (generateTasks cfg rand n d nw md st)"
    and t: "t = generateTasks cfg rand n d nw md st ! m"
    by (auto simp: in_set_conv_nth)
  have "0 \<le> int m" and "int m < n"
    using m by (simp_all add: generateTasks_length)
  then have "scheduledTime (generateTasks cfg rand n d nw md st ! nat (int m)) =
             st + delayMs (generateTasks cfg rand n d nw md st ! nat (int m))"
    by (rule generateTasks_nth(3))
  with t show ?thesis by simp
qed

text \<open>
  Claim C7 says that in every parallel-mode generation with a positive duration each
  task's offset lies in \<open>[0, durationMs)\<close>. The generator with cumulative delays
  (\<^verbatim>\<open>src/services/scheduler.ts\<close>, whose comment reads "assign random delays within the
  duration") does not keep to it. Parallel mode, two tokens in one hour, randomness 0.5:
  when both delays are drawn at 0.875, they are 2475000 ms each, and the second task's
  offset is 4950000 ms, beyond the duration of 3600000 ms.
\<close>

theorem C7_cumulative_offsets_exceed_window:
  "map delayMs (scheduler_ts_generateTasks example_config (\<lambda>k. Draw (7 / 8)) 2 3600000 2
                  [example_token] 1000) = [2475000, 4950000]
   \<and> \<not> (4950000 < (3600000::real))"
  by (simp add: scheduler_ts_generateTasks_def example_config_def cumulative_loop.simps
        shuffle_loop.simps getRandomDelay_def draw_value_Draw js_rem_def js_at_def Let_def)

text \<open>
  The generator that draws one \<^verbatim>\<open>Math.random() * durationMs\<close> for each task does keep to
  it. In parallel mode and with a positive duration, every task's offset \<open>delayMs\<close> lies
  in \<open>[0, durationMs)\<close> and its scheduled time is the start time plus that offset, so it
  lies in \<open>[startTime, startTime + durationMs)\<close>. The offsets of the tasks, in order, are
  the sorted values \<open>draw * durationMs\<close> of the first \<open>totalTokens\<close> draws. (That the
  draws are independent and uniform is a property of \<^verbatim>\<open>Math.random()\<close>, outside this
  model.)
\<close>

theorem parallel_offsets_in_window:
  assumes "executionMode cfg = parallel" and "0 < durationMs"
  shows "(\<forall>t \<in> set (generateTasks cfg rand totalTokens durationMs nw md st).
            0 \<le> delayMs t \<and> delayMs t < durationMs
            \<and> scheduledTime t = st + delayMs t
            \<and> st \<le> scheduledTime t \<and> scheduledTime t < st + durationMs)
         \<and> map delayMs (generateTasks cfg rand totalTokens durationMs nw md st) =
             sort (map (\<lambda>j. draw_value (rand (nat j)) * durationMs) [0..totalTokens - 1])"
proof -
  let ?ts = "generateTasks cfg rand totalTokens durationMs nw md st"
  have delays: "map delayMs ?ts =
      sort (map (\<lambda>j. draw_value (rand (nat j)) * durationMs) [0..totalTokens - 1])"
    using assms(1) by (rule generateTasks_parallel_delays)
  have window: "0 \<le> delayMs t \<and> delayMs t < durationMs" if "t \<in> set ?ts" for t
  proof -
    from that have "delayMs t \<in> set (map delayMs ?ts)"
      by simp
    then obtain j where "delayMs t = draw_value (rand (nat j)) * durationMs"
      unfolding delays by auto
    moreover have "0 \<le> draw_value (rand (nat j))" and "draw_value (rand (nat j)) < 1"
      using draw_value_bounds by simp_all
    ultimately show ?thesis
      using assms(2) by simp
  qed
  have "0 \<le> delayMs t \<and> delayMs t < durationMs \<and> scheduledTime t = st + delayMs t
        \<and> st \<le> scheduledTime t \<and> scheduledTime t < st + durationMs"
    if "t \<in> set ?ts" for t
    using window [OF that] generateTasks_anchored [OF that] by simp
  with delays show ?thesis
    by blast
qed

theorem parallel_offsets_in_window_example:
  "map delayMs (generateTasks example_config (\<lambda>k. Draw (if k = 0 then 7 / 8 else 1 / 8)) 2
                  3600000 2 [example_token] 1000) = [450000, 3150000]"
proof -
  have up: "[0..(1::int)] = [0, 1]"
    by (simp add: upto_rec1)
  have par: "executionMode example_config = parallel"
    by (simp add: example_config_def)
  show ?thesis
    using parallel_offsets_in_window [OF par, of 3600000
        "\<lambda>k. Draw (if k = 0 then 7 / 8 else 1 / 8)" 2 2 "[example_token]" 1000]
    by (simp add: up draw_value_Draw)
qed

text \<open>
  Claim C8. For \<open>totalTokens \<ge> 1\<close>, a pool of \<open>nw \<ge> 1\<close> wallets and a non-empty
  metadata pool, in either execution mode: the generator returns exactly \<open>totalTokens\<close>
  tasks, and for every \<open>i\<close> from 0 below \<open>totalTokens\<close> the task at position \<open>i\<close> has
  token index \<open>i\<close> and wallet index \<open>i mod nw\<close>, which is at least 0 and below \<open>nw\<close>.
\<close>

theorem C8_round_robin:
  assumes "1 \<le> totalTokens" and "1 \<le> nw" and "md \<noteq> []"
  shows "int (length (generateTasks cfg rand totalTokens durationMs nw md st)) = totalTokens
         \<and> (\<forall>i. 0 \<le> i \<and> i < totalTokens \<longrightarrow>
               tokenIndex (generateTasks cfg rand totalTokens durationMs nw md st ! nat i) = i
               \<and> walletIndex (generateTasks cfg rand totalTokens durationMs nw md st ! nat i)
                   = Idx (i mod nw)
               \<and> 0 \<le> i mod nw \<and> i mod nw < nw)"
proof -
  have len: "int (length (generateTasks cfg rand totalTokens durationMs nw md st)) = totalTokens"
    using assms(1) by (simp add: generateTasks_length)
  have "tokenIndex (generateTasks cfg rand totalTokens durationMs nw md st ! nat i) = i
        \<and> walletIndex (generateTasks cfg rand totalTokens durationMs nw md st ! nat i)
            = Idx (i mod nw)
        \<and> 0 \<le> i mod nw \<and> i mod nw < nw"
    if "0 \<le> i" and "i < totalTokens" for i
    using that assms(2) by (simp add: generateTasks_nth js_rem_valid)
  with len show ?thesis
    by blast
qed

theorem C8_round_robin_witness:
  "length (generateTasks (example_config\<lparr>executionMode := sequential\<rparr>) (\<lambda>k. Draw (1 / 2)) 5
             3600000 2 [example_token] 1000) = 5
   \<and> walletIndex (generateTasks (example_config\<lparr>executionMode := sequential\<rparr>)
        (\<lambda>k. Draw (1 / 2)) 5 3600000 2 [example_token] 1000 ! 3) = Idx 1
   \<and> walletIndex (generateTasks example_config (\<lambda>k. Draw (1 / 2)) 5 3600000 2
        [example_token] 1000 ! 4) = Idx 0"
proof -
  have a: "(1::int) \<le> 5" and b: "(1::int) \<le> 2" and c: "[example_token] \<noteq> []"
    by simp_all
  note seq = C8_round_robin [OF a b c, of "example_config\<lparr>executionMode := sequential\<rparr>"
      "\<lambda>k. Draw (1 / 2)" 3600000 1000]
  note par = C8_round_robin [OF a b c, of example_config "\<lambda>k. Draw (1 / 2)" 3600000 1000]
  from seq have "length (generateTasks (example_config\<lparr>executionMode := sequential\<rparr>)
        (\<lambda>k. Draw (1 / 2)) 5 3600000 2 [example_token] 1000) = 5"
    by simp
  moreover from seq [THEN conjunct2, rule_format, of 3]
  have "walletIndex (generateTasks (example_config\<lparr>executionMode := sequential\<rparr>)
        (\<lambda>k. Draw (1 / 2)) 5 3600000 2 [example_token] 1000 ! 3) = Idx 1"
    by simp
  moreover from par [THEN conjunct2, rule_format, of 4]
  have "walletIndex (generateTasks example_config (\<lambda>k. Draw (1 / 2)) 5 3600000 2
        [example_token] 1000 ! 4) = Idx 0"
    by simp
  ultimately show ?thesis by simp
qed

section \<open>Properties of the scheduler run\<close>

lemma saveState_free:
  assumes "\<not> locked (stateLock w)" and "queue (stateLock w) = []"
  shows "saveState caller state w =
           (Some (Inr ()), w\<lparr>stateFile := Json state, trace := trace w @ [StateWritten state]\<rparr>)"
proof -
  let ?w1 = "w\<lparr>stateLock := (stateLock w)\<lparr>locked := True\<rparr>\<rparr>"
  have "withLock_body (saveState_body state) ?w1 =
      (Inr (), w\<lparr>stateFile := Json state, trace := trace w @ [StateWritten state]\<rparr>)"
    using assms by (simp add: withLock_body_def saveState_body_def release_after_acquire)
  then show ?thesis
    using assms(1) by (simp add: saveState_def withLock_free)
qed

text \<open>The start time that a run is anchored at, and the state it keeps in memory.\<close>

lemma setStartTime_free:
  assumes "\<not> locked (stateLock w)" and "queue (stateLock w) = []"
  shows "setStartTime caller now state w =
     (case startTime state of
        None \<Rightarrow> (Some (Inr ()), state\<lparr>startTime := Some now\<rparr>, now,
                   w\<lparr>stateFile := Json (state\<lparr>startTime := Some now\<rparr>),
                     trace := trace w @ [StateWritten (state\<lparr>startTime := Some now\<rparr>)]\<rparr>)
      | Some t \<Rightarrow>
          if t = 0 then (Some (Inr ()), state\<lparr>startTime := Some now\<rparr>, now,
                   w\<lparr>stateFile := Json (state\<lparr>startTime := Some now\<rparr>),
                     trace := trace w @ [StateWritten (state\<lparr>startTime := Some now\<rparr>)]\<rparr>)
          else (Some (Inr ()), state, t, w))"
  using assms by (simp add: setStartTime_def saveState_free split: option.splits)

lemma setStartTime_count:
  "setStartTime caller now state w = (r, state1, start, w1) \<Longrightarrow>
   tokensCreated state1 = tokensCreated state"
  by (auto simp: setStartTime_def split: option.splits if_splits prod.splits)

lemma runScheduler_no_remaining_work:
  assumes "loadState (stateFile w) = Inr state"
    and "totalTokensToCreate cfg - tokensCreated state \<le> 0"
  shows "dispatched (runScheduler cfg rand addressAt lm now caller w) = []"
    and "generated (runScheduler cfg rand addressAt lm now caller w) = []"
proof -
  have gen: "generateTasks cfg rand (totalTokensToCreate cfg - tokensCreated state) d nw md st = []"
    for d nw md st
    using assms(2) generateTasks_length [of cfg rand "totalTokensToCreate cfg - tokensCreated state" d nw md st]
    by simp
  obtain r state1 start w1 where s: "setStartTime caller now state w = (r, state1, start, w1)"
    by (cases "setStartTime caller now state w") auto
  then have cnt: "tokensCreated state1 = tokensCreated state"
    by (rule setStartTime_count)
  show "dispatched (runScheduler cfg rand addressAt lm now caller w) = []"
    using assms(1) s cnt gen
    by (auto simp: runScheduler_def Let_def split: sum.splits option.splits)
  show "generated (runScheduler cfg rand addressAt lm now caller w) = []"
    using assms(1) s cnt gen
    by (auto simp: runScheduler_def Let_def split: sum.splits option.splits)
qed

lemma runScheduler_free:
  assumes "lm = Inr md" and "md \<noteq> []" and "loadState (stateFile w) = Inr state"
    and "\<not> locked (stateLock w)" and "queue (stateLock w) = []"
    and "setStartTime caller now state w = (r, state1, start, w1)"
  shows "runScheduler cfg rand addressAt lm now caller w =
     Some (Inr (if totalTokensToCreate cfg - tokensCreated state = 0 then AllCreated w1 state1
                else Started w1 state1
                  (generateTasks cfg rand (totalTokensToCreate cfg - tokensCreated state)
                     (durationHours cfg * 60 * 60 * 1000)
                     (int (length (drop 1 (deriveWallets addressAt (numWallets cfg + 1)))))
                     md (of_int start))
                  (if executionMode cfg = parallel then
                     generateTasks cfg rand (totalTokensToCreate cfg - tokensCreated state)
                       (durationHours cfg * 60 * 60 * 1000)
                       (int (length (drop 1 (deriveWallets addressAt (numWallets cfg + 1)))))
                       md (of_int start)
                   else sort_key scheduledTime
                     (generateTasks cfg rand (totalTokensToCreate cfg - tokensCreated state)
                       (durationHours cfg * 60 * 60 * 1000)
                       (int (length (drop 1 (deriveWallets addressAt (numWallets cfg + 1)))))
                       md (of_int start)))))"
proof -
  have cnt: "tokensCreated state1 = tokensCreated state"
    using assms(6) by (rule setStartTime_count)
  have r: "r = Some (Inr ())"
    using assms(6) setStartTime_free [OF assms(4,5), of caller now state]
    by (auto split: option.splits if_splits)
  show ?thesis
    using assms(1,2,3,6) cnt r by (simp add: runScheduler_def Let_def)
qed


text \<open>
  What a run does on a process start where the metadata pool is not empty, the state
  file loads and the state lock is free, for any progress record.
\<close>

lemma runScheduler_resume:
  assumes "lm = Inr md" and "md \<noteq> []" and "loadState (stateFile w) = Inr state"
    and "\<not> locked (stateLock w)" and "queue (stateLock w) = []"
  shows "\<exists>w1 state1 start.
      start = (case startTime state of None \<Rightarrow> now | Some t \<Rightarrow> if t = 0 then now else t)
    \<and> startTime state1 = Some start
    \<and> tokensCreated state1 = tokensCreated state
    \<and> createdTokens state1 = createdTokens state
    \<and> (startTime state \<noteq> None \<and> startTime state \<noteq> Some 0 \<longrightarrow> state1 = state \<and> w1 = w)
    \<and> (startTime state = None \<or> startTime state = Some 0 \<longrightarrow>
          state1 = state\<lparr>startTime := Some now\<rparr> \<and> stateFile w1 = Json state1)
    \<and> (totalTokensToCreate cfg - tokensCreated state = 0 \<longrightarrow>
          runScheduler cfg rand addressAt lm now caller w = Some (Inr (AllCreated w1 state1)))
    \<and> (totalTokensToCreate cfg - tokensCreated state \<noteq> 0 \<longrightarrow>
          (\<exists>tasks. runScheduler cfg rand addressAt lm now caller w =
               Some (Inr (Started w1 state1 tasks
                  (if executionMode cfg = parallel then tasks else sort_key scheduledTime tasks)))
             \<and> length tasks = nat (totalTokensToCreate cfg - tokensCreated state)
             \<and> (\<forall>t \<in> set tasks. scheduledTime t = of_int start + delayMs t)))"
proof -
  obtain r state1 start w1 where s: "setStartTime caller now state w = (r, state1, start, w1)"
    by (cases "setStartTime caller now state w") auto
  note free = setStartTime_free [OF assms(4,5), of caller now state]
  have start: "start = (case startTime state of None \<Rightarrow> now | Some t \<Rightarrow> if t = 0 then now else t)"
    using s free by (auto split: option.splits if_splits)
  have st1: "startTime state1 = Some start"
    using s free by (auto split: option.splits if_splits)
  have cnt: "tokensCreated state1 = tokensCreated state"
    using s by (rule setStartTime_count)
  have lst: "createdTokens state1 = createdTokens state"
    using s free by (auto split: option.splits if_splits)
  have kept: "startTime state \<noteq> None \<and> startTime state \<noteq> Some 0 \<longrightarrow> state1 = state \<and> w1 = w"
    using s free by (auto split: option.splits if_splits)
  have set: "startTime state = None \<or> startTime state = Some 0 \<longrightarrow>
          state1 = state\<lparr>startTime := Some now\<rparr> \<and> stateFile w1 = Json state1"
    using s free by (auto split: option.splits if_splits)
  note run = runScheduler_free [OF assms s, of cfg rand addressAt]
  let ?tasks = "generateTasks cfg rand (totalTokensToCreate cfg - tokensCreated state)
                     (durationHours cfg * 60 * 60 * 1000)
                     (int (length (drop 1 (deriveWallets addressAt (numWallets cfg + 1)))))
                     md (of_int start)"
  have early: "totalTokensToCreate cfg - tokensCreated state = 0 \<longrightarrow>
          runScheduler cfg rand addressAt lm now caller w = Some (Inr (AllCreated w1 state1))"
    using run by simp
  have started: "totalTokensToCreate cfg - tokensCreated state \<noteq> 0 \<longrightarrow>
          (\<exists>tasks. runScheduler cfg rand addressAt lm now caller w =
               Some (Inr (Started w1 state1 tasks
                  (if executionMode cfg = parallel then tasks else sort_key scheduledTime tasks)))
             \<and> length tasks = nat (totalTokensToCreate cfg - tokensCreated state)
             \<and> (\<forall>t \<in> set tasks. scheduledTime t = of_int start + delayMs t))"
  proof
    assume ne: "totalTokensToCreate cfg - tokensCreated state \<noteq> 0"
    have "runScheduler cfg rand addressAt lm now caller w =
               Some (Inr (Started w1 state1 ?tasks
                  (if executionMode cfg = parallel then ?tasks else sort_key scheduledTime ?tasks)))"
      using run ne by simp
    moreover have "length ?tasks = nat (totalTokensToCreate cfg - tokensCreated state)"
      by (rule generateTasks_length)
    moreover have "\<forall>t \<in> set ?tasks. scheduledTime t = of_int start + delayMs t"
      using generateTasks_anchored by blast
    ultimately show "\<exists>tasks. runScheduler cfg rand addressAt lm now caller w =
               Some (Inr (Started w1 state1 tasks
                  (if executionMode cfg = parallel then tasks else sort_key scheduledTime tasks)))
             \<and> length tasks = nat (totalTokensToCreate cfg - tokensCreated state)
             \<and> (\<forall>t \<in> set tasks. scheduledTime t = of_int start + delayMs t)"
      by blast
  qed
  from start st1 cnt lst kept set early started show ?thesis
    by blast
qed

text \<open>
  Claim C5. On a process start (the metadata pool is not empty, the state file loads,
  the state lock is free) with a progress record that counts no more than the configured
  total and holds no start time or a non-zero one, the scheduler takes
  \<open>remaining = totalTokensToCreate - tokensCreated\<close> and generates exactly that many
  tasks, each scheduled at the start time plus its offset. The start time is the one in
  the record when the record holds one, and then the record is kept and nothing is
  written; it is set, to the current time, and saved only when the record holds none.
  If \<open>remaining = 0\<close> the run returns early and dispatches no task.
\<close>

theorem C5_generates_remaining_tasks:
  assumes "lm = Inr md" and "md \<noteq> []" and "loadState (stateFile w) = Inr state"
    and "\<not> locked (stateLock w)" and "queue (stateLock w) = []"
    and "tokensCreated state \<le> totalTokensToCreate cfg"
    and "startTime state \<noteq> Some 0"
  shows "\<exists>w1 state1 start.
      start = (case startTime state of None \<Rightarrow> now | Some t \<Rightarrow> t)
    \<and> startTime state1 = Some start
    \<and> tokensCreated state1 = tokensCreated state
    \<and> createdTokens state1 = createdTokens state
    \<and> (startTime state \<noteq> None \<longrightarrow> state1 = state \<and> w1 = w)
    \<and> (startTime state = None \<longrightarrow>
          state1 = state\<lparr>startTime := Some now\<rparr> \<and> stateFile w1 = Json state1)
    \<and> int (length (generated (runScheduler cfg rand addressAt lm now caller w)))
          = totalTokensToCreate cfg - tokensCreated state
    \<and> (\<forall>t \<in> set (generated (runScheduler cfg rand addressAt lm now caller w)).
          scheduledTime t = of_int start + delayMs t)
    \<and> dispatched (runScheduler cfg rand addressAt lm now caller w)
          = (if executionMode cfg = parallel
             then generated (runScheduler cfg rand addressAt lm now caller w)
             else sort_key scheduledTime
                    (generated (runScheduler cfg rand addressAt lm now caller w)))
    \<and> (totalTokensToCreate cfg - tokensCreated state = 0 \<longrightarrow>
          runScheduler cfg rand addressAt lm now caller w = Some (Inr (AllCreated w1 state1))
          \<and> dispatched (runScheduler cfg rand addressAt lm now caller w) = [])
    \<and> (totalTokensToCreate cfg - tokensCreated state \<noteq> 0 \<longrightarrow>
          (\<exists>tasks. runScheduler cfg rand addressAt lm now caller w =
               Some (Inr (Started w1 state1 tasks
                  (if executionMode cfg = parallel then tasks
                   else sort_key scheduledTime tasks)))))"
proof -
  let ?run = "runScheduler cfg rand addressAt lm now caller w"
  let ?remaining = "totalTokensToCreate cfg - tokensCreated state"
  from runScheduler_resume [OF assms(1-5), of now cfg rand addressAt caller]
  obtain w1 state1 start where
    start0: "start = (case startTime state of None \<Rightarrow> now
                      | Some t \<Rightarrow> if t = 0 then now else t)"
    and st1: "startTime state1 = Some start"
    and cnt: "tokensCreated state1 = tokensCreated state"
    and lst: "createdTokens state1 = createdTokens state"
    and kept0: "startTime state \<noteq> None \<and> startTime state \<noteq> Some 0 \<longrightarrow>
                  state1 = state \<and> w1 = w"
    and set0: "startTime state = None \<or> startTime state = Some 0 \<longrightarrow>
                  state1 = state\<lparr>startTime := Some now\<rparr> \<and> stateFile w1 = Json state1"
    and early: "?remaining = 0 \<longrightarrow> ?run = Some (Inr (AllCreated w1 state1))"
    and started: "?remaining \<noteq> 0 \<longrightarrow>
          (\<exists>tasks. ?run = Some (Inr (Started w1 state1 tasks
                  (if executionMode cfg = parallel then tasks
                   else sort_key scheduledTime tasks)))
             \<and> length tasks = nat ?remaining
             \<and> (\<forall>t \<in> set tasks. scheduledTime t = of_int start + delayMs t))"
    by blast
  have start: "start = (case startTime state of None \<Rightarrow> now | Some t \<Rightarrow> t)"
    using start0 assms(7) by (auto split: option.splits)
  have kept: "startTime state \<noteq> None \<longrightarrow> state1 = state \<and> w1 = w"
    using kept0 assms(7) by simp
  have set: "startTime state = None \<longrightarrow>
          state1 = state\<lparr>startTime := Some now\<rparr> \<and> stateFile w1 = Json state1"
    using set0 by simp
  have nonneg: "0 \<le> ?remaining"
    using assms(6) by simp
  have facts: "int (length (generated ?run)) = ?remaining
      \<and> (\<forall>t \<in> set (generated ?run). scheduledTime t = of_int start + delayMs t)
      \<and> dispatched ?run = (if executionMode cfg = parallel then generated ?run
                            else sort_key scheduledTime (generated ?run))"
  proof (cases "?remaining = 0")
    case True
    with early show ?thesis by simp
  next
    case False
    with started obtain tasks where
      run: "?run = Some (Inr (Started w1 state1 tasks
                  (if executionMode cfg = parallel then tasks
                   else sort_key scheduledTime tasks)))"
      and len: "length tasks = nat ?remaining"
      and anchored: "\<forall>t \<in> set tasks. scheduledTime t = of_int start + delayMs t"
      by blast
    from len nonneg have "int (length tasks) = ?remaining"
      by simp
    with run anchored show ?thesis
      by simp
  qed
  have early': "?remaining = 0 \<longrightarrow>
      ?run = Some (Inr (AllCreated w1 state1)) \<and> dispatched ?run = []"
    using early by simp
  have started': "?remaining \<noteq> 0 \<longrightarrow>
          (\<exists>tasks. ?run = Some (Inr (Started w1 state1 tasks
                  (if executionMode cfg = parallel then tasks
                   else sort_key scheduledTime tasks))))"
    using started by blast
  note len = facts [THEN conjunct1]
    and anchored = facts [THEN conjunct2, THEN conjunct1]
    and order = facts [THEN conjunct2, THEN conjunct2]
  from start st1 cnt lst kept set len anchored order early' started' show ?thesis
    by (intro exI [of _ w1] exI [of _ state1] exI [of _ start] conjI) assumption+
qed

theorem C5_generates_remaining_tasks_witness:
  "length (generated (runScheduler example_config (\<lambda>k. Draw (1 / 2)) (\<lambda>i. ''0xw'')
      (Inr [example_token]) 2000 1 (fresh_world (Json (example_state 3))))) = 2
   \<and> dispatched (runScheduler example_config (\<lambda>k. Draw (1 / 2)) (\<lambda>i. ''0xw'')
      (Inr [example_token]) 2000 1 (fresh_world (Json (example_state 5)))) = []"
proof -
  have a: "[example_token] \<noteq> []"
    by simp
  have l3: "loadState (stateFile (fresh_world (Json (example_state 3)))) = Inr (example_state 3)"
    and l5: "loadState (stateFile (fresh_world (Json (example_state 5)))) = Inr (example_state 5)"
    by (simp_all add: loadState_def fresh_world_def)
  have f: "\<not> locked (stateLock (fresh_world x))" and q: "queue (stateLock (fresh_world x)) = []"
    for x
    by (simp_all add: fresh_world_def)
  have c3: "tokensCreated (example_state 3) \<le> totalTokensToCreate example_config"
    and c5: "tokensCreated (example_state 5) \<le> totalTokensToCreate example_config"
    and s: "startTime (example_state n) \<noteq> Some 0" for n
    by (simp_all add: example_config_def example_state_def)
  have r3: "totalTokensToCreate example_config - tokensCreated (example_state 3) = 2"
    and r5: "totalTokensToCreate example_config - tokensCreated (example_state 5) = 0"
    by (simp_all add: example_config_def example_state_def)
  from C5_generates_remaining_tasks [where cfg = example_config and now = 2000
      and rand = "\<lambda>k. Draw (1 / 2)" and addressAt = "\<lambda>i. ''0xw''" and caller = 1,
      OF refl a l3 f q c3 s]
  have "length (generated (runScheduler example_config (\<lambda>k. Draw (1 / 2)) (\<lambda>i. ''0xw'')
      (Inr [example_token]) 2000 1 (fresh_world (Json (example_state 3))))) = 2"
    unfolding r3 by auto
  moreover
  from C5_generates_remaining_tasks [where cfg = example_config and now = 2000
      and rand = "\<lambda>k. Draw (1 / 2)" and addressAt = "\<lambda>i. ''0xw''" and caller = 1,
      OF refl a l5 f q c5 s]
  have "dispatched (runScheduler example_config (\<lambda>k. Draw (1 / 2)) (\<lambda>i. ''0xw'')
      (Inr [example_token]) 2000 1 (fresh_world (Json (example_state 5)))) = []"
    unfolding r5 by auto
  ultimately show ?thesis by simp
qed

text \<open>
  Claim C10. For every \<open>totalTokens \<le> 0\<close>, whatever the pool size, the metadata pool and
  the mode, the call of the generator returns the empty task list and no error. A run
  that loads a progress record whose count exceeds the configured total therefore
  generates and dispatches no task, whatever else happens in it; when the metadata pool
  is not empty and the state lock is free it is not the early return that ends it:
  the run reaches the dispatch with an empty task list.
\<close>

theorem C10_nothing_to_generate:
  "(totalTokens \<le> 0 \<longrightarrow>
      generateTasks_call cfg rand totalTokens durationMs nw md st = Inr [])
   \<and> (loadState (stateFile w) = Inr state \<and> totalTokensToCreate cfg < tokensCreated state \<longrightarrow>
        generated (runScheduler cfg rand addressAt lm now caller w) = []
        \<and> dispatched (runScheduler cfg rand addressAt lm now caller w) = []
        \<and> (lm = Inr md \<and> md \<noteq> [] \<and> \<not> locked (stateLock w) \<and> queue (stateLock w) = [] \<longrightarrow>
             (\<exists>w1 state1. runScheduler cfg rand addressAt lm now caller w =
                Some (Inr (Started w1 state1 [] [])))))"
proof -
  have gen: "generateTasks cfg rand n d k m s = []" if "n \<le> 0" for n d k m s
    using that generateTasks_length [of cfg rand n d k m s] by simp
  have call: "totalTokens \<le> 0 \<longrightarrow>
      generateTasks_call cfg rand totalTokens durationMs nw md st = Inr []"
    by (simp add: generateTasks_call_def gen)
  have run: "generated (runScheduler cfg rand addressAt lm now caller w) = []
        \<and> dispatched (runScheduler cfg rand addressAt lm now caller w) = []
        \<and> (lm = Inr md \<and> md \<noteq> [] \<and> \<not> locked (stateLock w) \<and> queue (stateLock w) = [] \<longrightarrow>
             (\<exists>w1 state1. runScheduler cfg rand addressAt lm now caller w =
                Some (Inr (Started w1 state1 [] []))))"
    if l: "loadState (stateFile w) = Inr state"
      and over: "totalTokensToCreate cfg < tokensCreated state"
  proof -
    from over have neg: "totalTokensToCreate cfg - tokensCreated state \<le> 0"
      and ne: "totalTokensToCreate cfg - tokensCreated state \<noteq> 0"
      by simp_all
    have none: "generated (runScheduler cfg rand addressAt lm now caller w) = []"
        "dispatched (runScheduler cfg rand addressAt lm now caller w) = []"
      using l neg by (rule runScheduler_no_remaining_work)+
    have "\<exists>w1 state1. runScheduler cfg rand addressAt lm now caller w =
                Some (Inr (Started w1 state1 [] []))"
      if "lm = Inr md" "md \<noteq> []" "\<not> locked (stateLock w)" "queue (stateLock w) = []"
    proof -
      obtain r state1 start w1 where s: "setStartTime caller now state w = (r, state1, start, w1)"
        by (cases "setStartTime caller now state w") auto
      show ?thesis
        using runScheduler_free [OF that(1,2) l that(3,4) s, of cfg rand addressAt] ne
        by (simp add: gen [OF neg])
    qed
    with none show ?thesis by blast
  qed
  from call run show ?thesis by blast
qed

theorem C10_nothing_to_generate_witness:
  "generateTasks_call example_config (\<lambda>k. Draw (1 / 2)) (- 2) 3600000 2 [example_token] 1000
     = Inr []
   \<and> dispatched (runScheduler (example_config\<lparr>executionMode := sequential\<rparr>)
        (\<lambda>k. Draw (1 / 2)) (\<lambda>i. ''0xw'') (Inr [example_token]) 2000 1
        (fresh_world (Json (example_state 7)))) = []"
proof -
  have l: "loadState (stateFile (fresh_world (Json (example_state 7)))) = Inr (example_state 7)"
    by (simp add: loadState_def fresh_world_def)
  have over: "totalTokensToCreate (example_config\<lparr>executionMode := sequential\<rparr>)
      < tokensCreated (example_state 7)"
    by (simp add: example_config_def example_state_def)
  have neg: "(- 2 :: int) \<le> 0"
    by simp
  from neg C10_nothing_to_generate [where totalTokens = "- 2" and cfg = example_config
      and rand = "\<lambda>k. Draw (1 / 2)" and durationMs = 3600000 and nw = 2
      and md = "[example_token]" and st = 1000]
  have "generateTasks_call example_config (\<lambda>k. Draw (1 / 2)) (- 2) 3600000 2 [example_token] 1000
     = Inr []"
    by simp
  moreover
  from l over C10_nothing_to_generate [where cfg = "example_config\<lparr>executionMode := sequential\<rparr>"
      and w = "fresh_world (Json (example_state 7))" and state = "example_state 7"
      and rand = "\<lambda>k. Draw (1 / 2)" and addressAt = "\<lambda>i. ''0xw''"
      and lm = "Inr [example_token]" and now = 2000 and caller = 1]
  have "dispatched (runScheduler (example_config\<lparr>executionMode := sequential\<rparr>)
        (\<lambda>k. Draw (1 / 2)) (\<lambda>i. ''0xw'') (Inr [example_token]) 2000 1
        (fresh_world (Json (example_state 7)))) = []"
    by simp
  ultimately show ?thesis by simp
qed

section \<open>Properties of the token creation workflow\<close>

lemma withRetry_loop_no_write:
  "filter is_write (snd (withRetry_loop fn t m d a tr)) = filter is_write tr"
proof (induction fn t m d a tr rule: withRetry_loop.induct)
  case (1 fn taskName maxRetries retryDelay attempt performed)
  show ?case
  proof (cases "attempt \<le> maxRetries \<and> attempt < maxRetries \<and> isl (fn attempt)")
    case True
    then obtain msg where msg: "fn attempt = Inl msg"
      by (cases "fn attempt") auto
    have "withRetry_loop fn taskName maxRetries retryDelay attempt performed =
          withRetry_loop fn taskName maxRetries retryDelay (attempt + 1)
            (performed @ [OperationCalled attempt, Slept (retryDelay * attempt)])"
      using True msg by (subst withRetry_loop.simps) simp
    moreover have "filter is_write (snd (withRetry_loop fn taskName maxRetries retryDelay
            (attempt + 1) (performed @ [OperationCalled attempt, Slept (retryDelay * attempt)])))
        = filter is_write (performed @ [OperationCalled attempt, Slept (retryDelay * attempt)])"
      using True msg by (intro "1.IH") auto
    ultimately show ?thesis by simp
  next
    case False
    then show ?thesis
      by (subst withRetry_loop.simps) (auto split: sum.splits)
  qed
qed

lemma withRetry_no_write: "filter is_write (snd (withRetry fn t m d)) = []"
  by (simp add: withRetry_def withRetry_loop_no_write)

lemma sellStep_eq:
  "sellStep cfg md tokensReceived sellTokens w =
     (if sellPercentage cfg > 0
      then (case fst (withRetry
                  (sellTokens (bigint_div (tokensReceived * sellPercentage cfg) 100))
                  (''Sell tokens for '' @ symbol md) (maxRetries cfg) (retryDelayMs cfg)) of
              Inl e \<Rightarrow> Inl e | Inr hash \<Rightarrow> Inr ())
      else Inr (),
      w\<lparr>trace := trace w @
          (if sellPercentage cfg > 0
           then snd (withRetry
                  (sellTokens (bigint_div (tokensReceived * sellPercentage cfg) 100))
                  (''Sell tokens for '' @ symbol md) (maxRetries cfg) (retryDelayMs cfg))
           else [])\<rparr>)"
  by (cases "withRetry (sellTokens (bigint_div (tokensReceived * sellPercentage cfg) 100))
                  (''Sell tokens for '' @ symbol md) (maxRetries cfg) (retryDelayMs cfg)")
     (auto simp: sellStep_def split: sum.splits)

text \<open>The world in which a task that awaits the update holds the state lock.\<close>

lemma awaitUpdateState_free:
  "\<not> locked (stateLock w) \<Longrightarrow>
   awaitUpdateState caller updater handOver w =
     (case withLock_body (updateState_body updater)
             (w\<lparr>stateLock := (stateLock w)\<lparr>locked := True\<rparr>\<rparr>) of
        (r, w') \<Rightarrow> (Some r, w'))"
  by (simp add: awaitUpdateState_def updateState_def withLock_free split: prod.splits)

lemma awaitUpdateState_queued:
  "locked (stateLock w) \<Longrightarrow>
   awaitUpdateState caller updater handOver w =
     (case handOver (w\<lparr>stateLock := (stateLock w)\<lparr>queue := queue (stateLock w) @ [caller]\<rparr>\<rparr>) of
        None \<Rightarrow> (None, w\<lparr>stateLock := (stateLock w)\<lparr>queue := queue (stateLock w) @ [caller]\<rparr>\<rparr>)
      | Some held \<Rightarrow>
          (case withLock_body (updateState_body updater) held of (r, w') \<Rightarrow> (Some r, w')))"
  by (simp add: awaitUpdateState_def updateState_def withLock_def stateLock_acquire_def)

lemma locked_update_load_fails:
  "loadState (stateFile held) = Inl e \<Longrightarrow>
   withLock_body (updateState_body updater) held =
     (Inl e, held\<lparr>stateLock := stateLock_release (stateLock held)\<rparr>)"
  by (simp add: withLock_body_def updateState_body_def)

lemma locked_update_commits:
  "loadState (stateFile held) = Inr state \<Longrightarrow> updater state = Inr state' \<Longrightarrow>
   withLock_body (updateState_body updater) held =
     (Inr (), held\<lparr>stateFile := Json state', trace := trace held @ [StateWritten state'],
                    stateLock := stateLock_release (stateLock held)\<rparr>)"
  by (simp add: withLock_body_def updateState_body_commits)


text \<open>
  One token, no state file, a free state lock, a sale that reverts in all three
  attempts: the workflow returns the error of the retry wrapper, and the record of the
  token is on disk; the write is the second effect, before the first call of the sale.
\<close>

theorem C1_update_before_sell_counterexample:
  "executeTokenCreation example_config 1 \<lparr>address = ''0xw'', index = 1\<rparr> example_token
     (Inr 100) (\<lambda>amount. Inr (''0xabc'', 1000)) (\<lambda>amount k. Inl ''reverted'') 10 11
     (\<lambda>queued. None) (fresh_world Missing)
   = (Some (Inl ''Sell tokens for TKN failed after 3 attempts: reverted''),
      \<lparr>stateFile = Json \<lparr>tokensCreated = 1, startTime = None, lastCreatedAt = Some 10,
          createdTokens = [\<lparr>tokenAddress = ''0xabc'', createdMetadata = example_token,
                            createdAt = 11, createdWalletIndex = 1\<rparr>]\<rparr>,
       stateLock = \<lparr>locked = False, queue = []\<rparr>,
       trace = [CreateCalled,
                StateWritten \<lparr>tokensCreated = 1, startTime = None, lastCreatedAt = Some 10,
                  createdTokens = [\<lparr>tokenAddress = ''0xabc'', createdMetadata = example_token,
                                    createdAt = 11, createdWalletIndex = 1\<rparr>]\<rparr>,
                OperationCalled 1, Slept 5000, OperationCalled 2, Slept 10000,
                OperationCalled 3]\<rparr>)"
  by (simp add: executeTokenCreation_def awaitUpdateState_def sellStep_def updateState_def
        withLock_def withLock_body_def
        stateLock_acquire_def stateLock_release_def updateState_body_def loadState_def
        creationUpdater_def fresh_world_def example_config_def example_token_def
        withRetry_def withRetry_loop.simps show_int_def show_nat.simps digit_char_def)

text \<open>
  Claim C1, as amended. For every task execution, the durable update is performed only
  after the create step has returned success, as soon as the task holds the state lock,
  and before the sell step starts.

  When the buy amount does not parse, the workflow fails with no effect at all; when the
  create step fails, it fails after the create call and nothing is written. When the
  create step succeeds, the task awaits the update: it holds the lock at once when the
  lock is free, or after the hand-over when it was queued; a task that is never handed
  the lock stays queued, writes nothing and sells nothing. In the world \<open>held\<close> in which it
  holds the lock, if the state file does not load the workflow fails with that error,
  the lock released, nothing written and nothing sold. If it loads, the record is
  updated and written, the lock is released, and only then does the sell step run:
  what the task adds to the effects of \<open>held\<close> (which for a free lock end with its create
  call) is the write of the updated record followed by the calls and delays of the sale
  under the retry wrapper (none when the sell percentage is not positive), which contain
  no write. The record on disk is the updated one whether the sale succeeds or its
  retries are exhausted; the workflow's result is then the sale's.
\<close>

theorem C1_update_follows_create:
  "(parsed = Inl err \<longrightarrow>
      executeTokenCreation cfg caller wallet md parsed createToken sellTokens now1 now2
        handOver w = (Some (Inl err), w))
   \<and> (parsed = Inr amount \<and> createToken amount = Inl err \<longrightarrow>
        executeTokenCreation cfg caller wallet md parsed createToken sellTokens now1 now2
          handOver w = (Some (Inl err), w\<lparr>trace := trace w @ [CreateCalled]\<rparr>))
   \<and> (parsed = Inr amount \<and> createToken amount = Inr (tokenAddr, tokensReceived) \<longrightarrow>
        (locked (stateLock w)
           \<and> handOver (w\<lparr>trace := trace w @ [CreateCalled],
                          stateLock := (stateLock w)\<lparr>queue := queue (stateLock w) @ [caller]\<rparr>\<rparr>)
               = None \<longrightarrow>
           executeTokenCreation cfg caller wallet md parsed createToken sellTokens now1 now2
             handOver w
           = (None, w\<lparr>trace := trace w @ [CreateCalled],
                       stateLock := (stateLock w)\<lparr>queue := queue (stateLock w) @ [caller]\<rparr>\<rparr>))
      \<and> (\<not> locked (stateLock w)
             \<and> held = w\<lparr>trace := trace w @ [CreateCalled],
                         stateLock := (stateLock w)\<lparr>locked := True\<rparr>\<rparr>
           \<or> locked (stateLock w)
             \<and> handOver (w\<lparr>trace := trace w @ [CreateCalled],
                            stateLock := (stateLock w)\<lparr>queue := queue (stateLock w) @ [caller]\<rparr>\<rparr>)
                 = Some held \<longrightarrow>
           (loadState (stateFile held) = Inl err \<longrightarrow>
              executeTokenCreation cfg caller wallet md parsed createToken sellTokens now1 now2
                handOver w
              = (Some (Inl err), held\<lparr>stateLock := stateLock_release (stateLock held)\<rparr>))
         \<and> (loadState (stateFile held) = Inr state \<longrightarrow>
              (\<exists>state' sold.
                  creationUpdater tokenAddr md (index wallet) now1 now2 state = Inr state'
                \<and> sold = (if sellPercentage cfg > 0
                           then snd (withRetry
                              (sellTokens (bigint_div (tokensReceived * sellPercentage cfg) 100))
                              (''Sell tokens for '' @ symbol md) (maxRetries cfg)
                              (retryDelayMs cfg))
                           else [])
                \<and> filter is_write sold = []
                \<and> executeTokenCreation cfg caller wallet md parsed createToken sellTokens
                    now1 now2 handOver w
                  = (Some (if sellPercentage cfg > 0
                           then (case fst (withRetry
                                   (sellTokens
                                      (bigint_div (tokensReceived * sellPercentage cfg) 100))
                                   (''Sell tokens for '' @ symbol md) (maxRetries cfg)
                                   (retryDelayMs cfg)) of
                                   Inl e \<Rightarrow> Inl e | Inr hash \<Rightarrow> Inr ())
                           else Inr ()),
                     held\<lparr>stateFile := Json state',
                          stateLock := stateLock_release (stateLock held),
                          trace := trace held @ [StateWritten state'] @ sold\<rparr>)))))"
proof -
  let ?run = "executeTokenCreation cfg caller wallet md parsed createToken sellTokens now1 now2
                handOver w"
  let ?w0 = "w\<lparr>trace := trace w @ [CreateCalled]\<rparr>"
  let ?queued = "w\<lparr>trace := trace w @ [CreateCalled],
                   stateLock := (stateLock w)\<lparr>queue := queue (stateLock w) @ [caller]\<rparr>\<rparr>"
  let ?upd = "creationUpdater tokenAddr md (index wallet) now1 now2"
  let ?sale = "withRetry (sellTokens (bigint_div (tokensReceived * sellPercentage cfg) 100))
                 (''Sell tokens for '' @ symbol md) (maxRetries cfg) (retryDelayMs cfg)"
  let ?sold = "if sellPercentage cfg > 0 then snd ?sale else []"
  let ?res = "if sellPercentage cfg > 0
              then (case fst ?sale of Inl e \<Rightarrow> Inl e | Inr hash \<Rightarrow> Inr ())
              else Inr ()"
  have noparse: "parsed = Inl err \<longrightarrow> ?run = (Some (Inl err), w)"
    by (simp add: executeTokenCreation_def)
  have nocreate: "parsed = Inr amount \<and> createToken amount = Inl err \<longrightarrow>
      ?run = (Some (Inl err), ?w0)"
    by (simp add: executeTokenCreation_def)
  have created: "?run =
      (case awaitUpdateState caller ?upd handOver ?w0 of
         (None, w2) \<Rightarrow> (None, w2)
       | (Some (Inl err), w2) \<Rightarrow> (Some (Inl err), w2)
       | (Some (Inr u), w2) \<Rightarrow>
           (case sellStep cfg md tokensReceived sellTokens w2 of (r, w3) \<Rightarrow> (Some r, w3)))"
    if "parsed = Inr amount" and "createToken amount = Inr (tokenAddr, tokensReceived)"
    using that by (simp add: executeTokenCreation_def)
  have await: "awaitUpdateState caller ?upd handOver ?w0 =
      (case withLock_body (updateState_body ?upd) held of (r, w') \<Rightarrow> (Some r, w'))"
    if "\<not> locked (stateLock w) \<and> held = w\<lparr>trace := trace w @ [CreateCalled],
                                             stateLock := (stateLock w)\<lparr>locked := True\<rparr>\<rparr>
        \<or> locked (stateLock w) \<and> handOver ?queued = Some held"
    using that
    by (auto simp: awaitUpdateState_free awaitUpdateState_queued)
  have waits: "?run = (None, ?queued)"
    if "parsed = Inr amount" and "createToken amount = Inr (tokenAddr, tokensReceived)"
      and "locked (stateLock w)" and "handOver ?queued = None"
    using created [OF that(1,2)] that(3,4) by (simp add: awaitUpdateState_queued)
  have noload: "?run = (Some (Inl err), held\<lparr>stateLock := stateLock_release (stateLock held)\<rparr>)"
    if "parsed = Inr amount" and "createToken amount = Inr (tokenAddr, tokensReceived)"
      and "\<not> locked (stateLock w) \<and> held = w\<lparr>trace := trace w @ [CreateCalled],
                                             stateLock := (stateLock w)\<lparr>locked := True\<rparr>\<rparr>
        \<or> locked (stateLock w) \<and> handOver ?queued = Some held"
      and "loadState (stateFile held) = Inl err"
    using created [OF that(1,2)] await [OF that(3)]
      locked_update_load_fails [OF that(4), of ?upd]
    by simp
  have written: "\<exists>state' sold.
        ?upd state = Inr state' \<and> sold = ?sold \<and> filter is_write sold = []
      \<and> ?run = (Some ?res,
                held\<lparr>stateFile := Json state',
                     stateLock := stateLock_release (stateLock held),
                     trace := trace held @ [StateWritten state'] @ sold\<rparr>)"
    if "parsed = Inr amount" and "createToken amount = Inr (tokenAddr, tokensReceived)"
      and "\<not> locked (stateLock w) \<and> held = w\<lparr>trace := trace w @ [CreateCalled],
                                             stateLock := (stateLock w)\<lparr>locked := True\<rparr>\<rparr>
        \<or> locked (stateLock w) \<and> handOver ?queued = Some held"
      and "loadState (stateFile held) = Inr state"
  proof -
    obtain state' where upd: "?upd state = Inr state'"
      by (simp add: creationUpdater_def)
    have nowrite: "filter is_write ?sold = []"
      by (simp add: withRetry_no_write)
    have "?run = (Some ?res,
                held\<lparr>stateFile := Json state',
                     stateLock := stateLock_release (stateLock held),
                     trace := trace held @ [StateWritten state'] @ ?sold\<rparr>)"
      using created [OF that(1,2)] await [OF that(3)]
        locked_update_commits [where updater = ?upd, OF that(4) upd]
      by (simp add: sellStep_eq)
    with upd nowrite show ?thesis
      by blast
  qed
  from noparse nocreate waits noload written show ?thesis
    by blast
qed


theorem C1_update_follows_create_witness:
  "executeTokenCreation example_config 1 \<lparr>address = ''0xw'', index = 1\<rparr> example_token
     (Inl ''invalid amount'') (\<lambda>amount. Inr (''0xabc'', 1000)) (\<lambda>amount k. Inr ''0xhash'')
     10 11 (\<lambda>queued. None) (fresh_world Missing)
   = (Some (Inl ''invalid amount''), fresh_world Missing)
   \<and> executeTokenCreation example_config 1 \<lparr>address = ''0xw'', index = 1\<rparr> example_token
     (Inr 100) (\<lambda>amount. Inr (''0xabc'', 1000)) (\<lambda>amount k. Inr ''0xhash'') 10 11
     (\<lambda>queued. Some (queued\<lparr>stateFile := Json (example_state 0),
                               stateLock := \<lparr>locked = True, queue = []\<rparr>\<rparr>))
     \<lparr>stateFile = Missing, stateLock = \<lparr>locked = True, queue = []\<rparr>, trace = []\<rparr>
   = (Some (Inr ()),
      \<lparr>stateFile = Json \<lparr>tokensCreated = 1, startTime = Some 1000, lastCreatedAt = Some 10,
          createdTokens = [\<lparr>tokenAddress = ''0xabc'', createdMetadata = example_token,
                            createdAt = 11, createdWalletIndex = 1\<rparr>]\<rparr>,
       stateLock = \<lparr>locked = False, queue = []\<rparr>,
       trace = [CreateCalled,
                StateWritten \<lparr>tokensCreated = 1, startTime = Some 1000, lastCreatedAt = Some 10,
                  createdTokens = [\<lparr>tokenAddress = ''0xabc'', createdMetadata = example_token,
                                    createdAt = 11, createdWalletIndex = 1\<rparr>]\<rparr>,
                OperationCalled 1]\<rparr>)"
proof -
  let ?hand = "\<lambda>queued. Some (queued\<lparr>stateFile := Json (example_state 0),
                               stateLock := \<lparr>locked = True, queue = []\<rparr>\<rparr>)"
  let ?w = "\<lparr>stateFile = Missing, stateLock = \<lparr>locked = True, queue = []\<rparr>, trace = []\<rparr>"
  let ?held = "\<lparr>stateFile = Json (example_state 0),
                stateLock = \<lparr>locked = True, queue = []\<rparr>, trace = [CreateCalled]\<rparr>"
  have sale: "withRetry (\<lambda>k. Inr ''0xhash'' :: string + string) name 3 5000
      = (Inr ''0xhash'', [OperationCalled 1])" for name
    by (simp add: withRetry_def withRetry_loop.simps)
  have s0: "example_state 0 = \<lparr>tokensCreated = 0, startTime = Some 1000, lastCreatedAt = None,
      createdTokens = []\<rparr>"
    by (simp add: example_state_def)
  from C1_update_follows_create [where cfg = example_config and caller = 1
      and wallet = "\<lparr>address = ''0xw'', index = 1\<rparr>" and md = example_token
      and parsed = "Inl ''invalid amount''" and err = "''invalid amount''"
      and createToken = "\<lambda>amount. Inr (''0xabc'', 1000)"
      and sellTokens = "\<lambda>amount k. Inr ''0xhash''" and ?now1.0 = 10 and ?now2.0 = 11
      and handOver = "\<lambda>queued. None" and w = "fresh_world Missing"]
  have a: "executeTokenCreation example_config 1 \<lparr>address = ''0xw'', index = 1\<rparr> example_token
     (Inl ''invalid amount'') (\<lambda>amount. Inr (''0xabc'', 1000)) (\<lambda>amount k. Inr ''0xhash'')
     10 11 (\<lambda>queued. None) (fresh_world Missing)
   = (Some (Inl ''invalid amount''), fresh_world Missing)"
    by simp
  from C1_update_follows_create [where cfg = example_config and caller = 1
      and wallet = "\<lparr>address = ''0xw'', index = 1\<rparr>" and md = example_token
      and parsed = "Inr 100" and amount = 100
      and createToken = "\<lambda>amount. Inr (''0xabc'', 1000)" and tokenAddr = "''0xabc''"
      and tokensReceived = 1000
      and sellTokens = "\<lambda>amount k. Inr ''0xhash''" and ?now1.0 = 10 and ?now2.0 = 11
      and handOver = ?hand and w = ?w and held = ?held and state = "example_state 0"]
  have b: "executeTokenCreation example_config 1 \<lparr>address = ''0xw'', index = 1\<rparr> example_token
     (Inr 100) (\<lambda>amount. Inr (''0xabc'', 1000)) (\<lambda>amount k. Inr ''0xhash'') 10 11 ?hand ?w
   = (Some (Inr ()),
      \<lparr>stateFile = Json \<lparr>tokensCreated = 1, startTime = Some 1000, lastCreatedAt = Some 10,
          createdTokens = [\<lparr>tokenAddress = ''0xabc'', createdMetadata = example_token,
                            createdAt = 11, createdWalletIndex = 1\<rparr>]\<rparr>,
       stateLock = \<lparr>locked = False, queue = []\<rparr>,
       trace = [CreateCalled,
                StateWritten \<lparr>tokensCreated = 1, startTime = Some 1000, lastCreatedAt = Some 10,
                  createdTokens = [\<lparr>tokenAddress = ''0xabc'', createdMetadata = example_token,
                                    createdAt = 11, createdWalletIndex = 1\<rparr>]\<rparr>,
                OperationCalled 1]\<rparr>)"
    by (simp add: loadState_def creationUpdater_def stateLock_release_def sale s0
          example_config_def)
  from a b show ?thesis by simp
qed

end
